theory Spec2Isabelle
  imports Main
begin

section \<open>JavaScript values that cross the agent boundaries\<close>

text \<open>
  Tool arguments, tool results and routing decisions are JSON data: they are parsed from
  the model's output and handed on through \<^verbatim>\<open>JSON.stringify\<close>. An object is the list of
  its own properties in the order the engine enumerates them (property names are distinct).
  Numbers are restricted to integers, which \<^verbatim>\<open>JSON.stringify\<close> prints in plain decimal.
  A JavaScript value that may be \<^verbatim>\<open>undefined\<close> is a \<open>json option\<close>, with \<open>None\<close>
  for \<^verbatim>\<open>undefined\<close>.
\<close>

datatype json =
    JNull
  | JBool bool
  | JNum int
  | JStr string
  | JArr "json list"
  | JObj "(string \<times> json) list"

type_synonym jsvalue = "json option"

text \<open>Truthiness, as \<^verbatim>\<open>||\<close> and \<^verbatim>\<open>if\<close> test it.\<close>

fun truthy :: "jsvalue \<Rightarrow> bool" where
  "truthy None = False"
| "truthy (Some JNull) = False"
| "truthy (Some (JBool b)) = b"
| "truthy (Some (JNum n)) = (n \<noteq> 0)"
| "truthy (Some (JStr s)) = (s \<noteq> [])"
| "truthy (Some (JArr xs)) = True"
| "truthy (Some (JObj kvs)) = True"

text \<open>
  Property read \<^verbatim>\<open>v?.k\<close> (and \<^verbatim>\<open>v.k\<close> on a truthy \<open>v\<close>): an object yields the
  property, \<^verbatim>\<open>null\<close> and \<^verbatim>\<open>undefined\<close> short-circuit to \<^verbatim>\<open>undefined\<close>, and the
  names read by the orchestrator (\<^verbatim>\<open>action\<close>, \<^verbatim>\<open>platform\<close>, \<^verbatim>\<open>tone\<close>,
  \<^verbatim>\<open>formattedContent\<close>, \<^verbatim>\<open>metadata\<close>) are no properties of a number, boolean, string
  or array.
\<close>

fun get_prop :: "jsvalue \<Rightarrow> string \<Rightarrow> jsvalue" where
  "get_prop (Some (JObj kvs)) k = map_of kvs k"
| "get_prop v k = None"

text \<open>\<^verbatim>\<open>a || b\<close>.\<close>

definition js_or :: "jsvalue \<Rightarrow> jsvalue \<Rightarrow> jsvalue" where
  "js_or a b = (if truthy a then a else b)"

subsection \<open>Decimal numerals\<close>

definition digit_char :: "nat \<Rightarrow> char" where
  "digit_char n = ''0123456789'' ! (n mod 10)"

fun show_nat :: "nat \<Rightarrow> string" where
  "show_nat n = (if n < 10 then [digit_char n] else show_nat (n div 10) @ [digit_char (n mod 10)])"

declare show_nat.simps [simp del]

definition show_int :: "int \<Rightarrow> string" where
  "show_int i = (if i < 0 then CHR ''-'' # show_nat (nat (- i)) else show_nat (nat i))"

subsection \<open>\<^verbatim>\<open>JSON.stringify\<close>\<close>

definition hex_char :: "nat \<Rightarrow> char" where
  "hex_char n = ''0123456789abcdef'' ! (n mod 16)"

text \<open>
  One character of a quoted string: the quote and the backslash get a backslash, the control
  characters below 0x20 their short escape or \<^verbatim>\<open>\u00XX\<close>, every other character is itself.
\<close>

definition escape_char :: "char \<Rightarrow> string" where
  "escape_char c =
     (if c = CHR 0x22 then [CHR 0x5C, CHR 0x22]
      else if c = CHR 0x5C then [CHR 0x5C, CHR 0x5C]
      else if c = CHR 0x08 then [CHR 0x5C, CHR ''b'']
      else if c = CHR 0x0C then [CHR 0x5C, CHR ''f'']
      else if c = CHR 0x0A then [CHR 0x5C, CHR ''n'']
      else if c = CHR 0x0D then [CHR 0x5C, CHR ''r'']
      else if c = CHR 0x09 then [CHR 0x5C, CHR ''t'']
      else if (of_char c :: nat) < 32
        then [CHR 0x5C, CHR ''u'', CHR ''0'', CHR ''0'',
              hex_char ((of_char c :: nat) div 16), hex_char ((of_char c :: nat) mod 16)]
      else [c])"

definition quote :: "string \<Rightarrow> string" where
  "quote s = CHR 0x22 # concat (map escape_char s) @ [CHR 0x22]"

fun stringify :: "json \<Rightarrow> string"
  and stringify_elems :: "json list \<Rightarrow> string"
  and stringify_members :: "(string \<times> json) list \<Rightarrow> string" where
  "stringify JNull = ''null''"
| "stringify (JBool b) = (if b then ''true'' else ''false'')"
| "stringify (JNum n) = show_int n"
| "stringify (JStr s) = quote s"
| "stringify (JArr xs) = CHR ''['' # stringify_elems xs @ '']''"
| "stringify (JObj kvs) = CHR ''{'' # stringify_members kvs @ ''}''"
| "stringify_elems [] = []"
| "stringify_elems [x] = stringify x"
| "stringify_elems (x # y # ys) = stringify x @ CHR '','' # stringify_elems (y # ys)"
| "stringify_members [] = []"
| "stringify_members [(k, v)] = quote k @ CHR '':'' # stringify v"
| "stringify_members ((k, v) # m # ms) =
     quote k @ CHR '':'' # stringify v @ CHR '','' # stringify_members (m # ms)"

text \<open>
  An object literal whose property values may be \<^verbatim>\<open>undefined\<close>: \<^verbatim>\<open>JSON.stringify\<close>
  leaves those properties out.
\<close>

definition defined_members :: "(string \<times> jsvalue) list \<Rightarrow> (string \<times> json) list" where
  "defined_members fs = concat (map (\<lambda>(k, v). case v of None \<Rightarrow> [] | Some j \<Rightarrow> [(k, j)]) fs)"

definition stringify_object :: "(string \<times> jsvalue) list \<Rightarrow> string" where
  "stringify_object fs = stringify (JObj (defined_members fs))"

text \<open>String conversion in a template literal, \<^verbatim>\<open>`${v}`\<close>.\<close>

fun to_string :: "json \<Rightarrow> string"
  and join_elems :: "json list \<Rightarrow> string" where
  "to_string JNull = ''null''"
| "to_string (JBool b) = (if b then ''true'' else ''false'')"
| "to_string (JNum n) = show_int n"
| "to_string (JStr s) = s"
| "to_string (JArr xs) = join_elems xs"
| "to_string (JObj kvs) = ''[object Object]''"
| "join_elems [] = []"
| "join_elems [x] = (if x = JNull then [] else to_string x)"
| "join_elems (x # y # ys) = (if x = JNull then [] else to_string x) @ CHR '','' # join_elems (y # ys)"

definition template :: "jsvalue \<Rightarrow> string" where
  "template v = (case v of None \<Rightarrow> ''undefined'' | Some j \<Rightarrow> to_string j)"

subsection \<open>Auxiliary notions for reading serialized text\<close>

definition is_digit :: "char \<Rightarrow> bool" where
  "is_digit c = (c \<in> set ''0123456789'')"

text \<open>What may follow a serialized value: nothing, or a character that is no digit.\<close>

definition no_digit_ahead :: "string \<Rightarrow> bool" where
  "no_digit_ahead r = (case r of [] \<Rightarrow> True | c # cs \<Rightarrow> \<not> is_digit c)"

text \<open>The characters a serialized value can begin with.\<close>

definition value_start :: "char \<Rightarrow> bool" where
  "value_start c = (c \<in> set (CHR 0x22 # ''ntf-0123456789[{''))"

section \<open>The orchestrator (packages/stream/agents/orchestrator.ts)\<close>

datatype error = Error string

record message =
  msg_role :: string
  msg_content :: string
  msg_id :: string

record toolResult =
  tr_toolName :: string
  tr_result :: jsvalue
  tr_toolCallId :: string
  tr_isError :: "bool option"

text \<open>
  A stage agent is a streaming agent built elsewhere on the external generation engine; the
  orchestrator awaits the call, drains its text stream and awaits its tool results, and
  each of the three may fail. The tool results may be missing altogether.
\<close>

record streamResult =
  textStream :: "error + string list"
  toolResults :: "error + toolResult list option"

type_synonym stageAgent = "message list \<Rightarrow> error + streamResult"

datatype stage = Router | Research | Strategy | Formatter | Publisher

record agents =
  routerAgent :: stageAgent
  researchAgent :: stageAgent
  strategyAgent :: stageAgent
  formatterAgent :: stageAgent
  publisherAgent :: stageAgent

record orchestrationResult =
  action :: jsvalue
  platform :: jsvalue
  references :: jsvalue
  strategy :: jsvalue
  formattedContent :: jsvalue
  publishedContent :: jsvalue

type_synonym invocation = "stage \<times> message list"

definition user_msg :: "string \<Rightarrow> string \<Rightarrow> message" where
  "user_msg c i = \<lparr>msg_role = ''user'', msg_content = c, msg_id = i\<rparr>"

fun agent_of :: "agents \<Rightarrow> stage \<Rightarrow> stageAgent" where
  "agent_of ag Router = routerAgent ag"
| "agent_of ag Research = researchAgent ag"
| "agent_of ag Strategy = strategyAgent ag"
| "agent_of ag Formatter = formatterAgent ag"
| "agent_of ag Publisher = publisherAgent ag"

text \<open>
  \<^verbatim>\<open>await agent(msgs)\<close>, \<^verbatim>\<open>for await (chunk of r.textStream)\<close>, \<^verbatim>\<open>await r.toolResults\<close>.
  Writing the chunks and the tool results to the console has no effect on what follows and
  is left out.
\<close>

definition run_stage :: "stageAgent \<Rightarrow> message list \<Rightarrow> error + toolResult list option" where
  "run_stage ag msgs =
     (case ag msgs of
        Inl e \<Rightarrow> Inl e
      | Inr r \<Rightarrow> (case textStream r of Inl e \<Rightarrow> Inl e | Inr chunks \<Rightarrow> toolResults r))"

definition call_stage ::
  "agents \<Rightarrow> stage \<Rightarrow> message list \<Rightarrow> invocation list
     \<Rightarrow> (error + toolResult list option) \<times> invocation list" where
  "call_stage ag st msgs log = (run_stage (agent_of ag st) msgs, log @ [(st, msgs)])"

text \<open>\<^verbatim>\<open>toolResults?.[0]?.result\<close>.\<close>

fun first_result :: "toolResult list option \<Rightarrow> jsvalue" where
  "first_result None = None"
| "first_result (Some []) = None"
| "first_result (Some (t # ts)) = tr_result t"

definition default_route :: json where
  "default_route = JObj [(''action'', JStr ''create_content''), (''platform'', JStr ''blog'')]"

definition create_content_flow ::
  "agents \<Rightarrow> string \<Rightarrow> jsvalue \<Rightarrow> orchestrationResult \<Rightarrow> invocation list
     \<Rightarrow> (error + orchestrationResult) \<times> invocation list" where
  "create_content_flow ag userInput route result log0 =
     (case call_stage ag Research [user_msg (''Research this topic: '' @ userInput) ''2''] log0 of
        (Inl e, log1) \<Rightarrow> (Inl e, log1)
      | (Inr researchToolResults, log1) \<Rightarrow>
          (let result1 = result\<lparr>references := first_result researchToolResults\<rparr> in
           case call_stage ag Strategy
                  [user_msg (''Create a strategy for '' @ template (get_prop route ''platform'')
                               @ '' about: '' @ userInput) ''3''] log1 of
             (Inl e, log2) \<Rightarrow> (Inl e, log2)
           | (Inr strategyToolResults, log2) \<Rightarrow>
               (let result2 = result1\<lparr>strategy := first_result strategyToolResults\<rparr> in
                case call_stage ag Formatter
                       [user_msg (stringify_object
                          [(''content'', Some (JStr userInput)),
                           (''platform'', get_prop route ''platform''),
                           (''tone'', js_or (get_prop (strategy result2) ''tone'')
                                            (Some (JStr ''professional'')))]) ''4''] log2 of
                  (Inl e, log3) \<Rightarrow> (Inl e, log3)
                | (Inr formatterToolResults, log3) \<Rightarrow>
                    (let result3 = result2\<lparr>formattedContent := first_result formatterToolResults\<rparr> in
                     case call_stage ag Publisher
                            [user_msg (stringify_object
                               [(''content'', get_prop (formattedContent result3) ''formattedContent''),
                                (''metadata'', get_prop (formattedContent result3) ''metadata''),
                                (''platform'', get_prop route ''platform'')]) ''5''] log3 of
                       (Inl e, log4) \<Rightarrow> (Inl e, log4)
                     | (Inr publisherToolResults, log4) \<Rightarrow>
                         (Inr (result3\<lparr>publishedContent := first_result publisherToolResults\<rparr>),
                          log4)))))"

definition create_strategy_flow ::
  "agents \<Rightarrow> jsvalue \<Rightarrow> orchestrationResult \<Rightarrow> invocation list
     \<Rightarrow> (error + orchestrationResult) \<times> invocation list" where
  "create_strategy_flow ag route result log0 =
     (case call_stage ag Strategy
             [user_msg (''Create a content strategy for '' @ template (get_prop route ''platform''))
                ''6''] log0 of
        (Inl e, log1) \<Rightarrow> (Inl e, log1)
      | (Inr strategyToolResults, log1) \<Rightarrow>
          (Inr (result\<lparr>strategy := first_result strategyToolResults\<rparr>), log1))"

text \<open>
  \<^verbatim>\<open>orchestrateAgents(userInput)\<close>: the result or the error thrown, and the stage agents
  invoked, in order. The \<^verbatim>\<open>switch\<close> compares \<^verbatim>\<open>route.action\<close> with \<^verbatim>\<open>===\<close> and has
  no default case.
\<close>

definition orchestrateAgents ::
  "agents \<Rightarrow> string \<Rightarrow> (error + orchestrationResult) \<times> invocation list" where
  "orchestrateAgents ag userInput =
     (case call_stage ag Router [user_msg userInput ''1''] [] of
        (Inl e, log0) \<Rightarrow> (Inl e, log0)
      | (Inr routerToolResults, log0) \<Rightarrow>
          (let route = js_or (first_result routerToolResults) (Some default_route);
               result = \<lparr>action = get_prop route ''action'', platform = get_prop route ''platform'',
                         references = None, strategy = None, formattedContent = None,
                         publishedContent = None\<rparr>
           in if action result = Some (JStr ''create_content'')
                then create_content_flow ag userInput route result log0
              else if action result = Some (JStr ''create_strategy'')
                then create_strategy_flow ag route result log0
              else if action result = Some (JStr ''manage_content'')
                then (Inr (result\<lparr>strategy := Some (JObj [(''message'',
                        JStr ''Content management workflow not implemented yet'')])\<rparr>), log0)
              else (Inr result, log0)))"

text \<open>The user messages a stage received, read off the invocation log.\<close>

definition stage_inputs :: "stage \<Rightarrow> invocation list \<Rightarrow> string list" where
  "stage_inputs st log = concat (map (\<lambda>(s, msgs). if s = st then map msg_content msgs else []) log)"

subsection \<open>Example stage agents\<close>

text \<open>
  A stage agent that streams no text and reports one tool result \<open>v\<close>, one that reports
  no tool result at all, and a pipeline whose router and strategy stages report given values.
\<close>

definition stage_returning :: "jsvalue \<Rightarrow> stageAgent" where
  "stage_returning v msgs =
     Inr \<lparr>textStream = Inr [],
          toolResults = Inr (Some [\<lparr>tr_toolName = ''tool'', tr_result = v,
                                     tr_toolCallId = ''call-1'', tr_isError = None\<rparr>])\<rparr>"

definition stage_silent :: stageAgent where
  "stage_silent msgs = Inr \<lparr>textStream = Inr [], toolResults = Inr (Some [])\<rparr>"

definition example_agents :: "stageAgent \<Rightarrow> stageAgent \<Rightarrow> agents" where
  "example_agents router strat =
     \<lparr>routerAgent = router, researchAgent = stage_returning None, strategyAgent = strat,
      formatterAgent = stage_returning None, publisherAgent = stage_returning None\<rparr>"

section \<open>Tracing, tool wrapping and the agent (agent configuration modules)\<close>

text \<open>
  The two agent modules, src/unnamed/part_006 and src/unnamed/part_007, share
  \<^verbatim>\<open>safeTraceOperation\<close>, \<^verbatim>\<open>ensureTraceFlushed\<close> and \<^verbatim>\<open>wrapToolWithTracing\<close>
  word for word and differ in \<^verbatim>\<open>createAgent\<close>.
\<close>

subsection \<open>The trace backend\<close>

text \<open>
  A call into the trace backend, by method and \<^verbatim>\<open>name\<close>. The payloads (inputs, outputs,
  timestamps) are built from values at hand and do not influence the control flow, so they
  are left out. A backend object tells, for each call, whether it throws and what.
\<close>

datatype trace_call =
    TraceCreate string
  | Span string
  | Generation string
  | GenerationUpdate string
  | SpanEnd string
  | TraceUpdate
  | Flush

record traceClient =
  tc_throws :: "trace_call \<Rightarrow> error option"
  tc_hasFlush :: bool

record langfuseClient =
  lf_throws :: "trace_call \<Rightarrow> error option"
  lf_newTrace :: traceClient

subsection \<open>The observable state of a run\<close>

type_synonym args = "(string \<times> json) list"

text \<open>
  \<open>toolResultCache\<close> is the \<^verbatim>\<open>Map<string, unknown>\<close> of the run; \<open>emitted\<close> lists the
  backend calls that went through, \<open>executed\<close> the invocations of the tools' own
  \<^verbatim>\<open>execute\<close> functions, \<open>console\<close> the lines written by \<^verbatim>\<open>console.warn\<close> and
  \<^verbatim>\<open>console.log\<close>, each in order.
\<close>

record world =
  toolResultCache :: "string \<rightharpoonup> jsvalue"
  emitted :: "trace_call list"
  executed :: "(string \<times> args) list"
  console :: "string list"

text \<open>
  A tool's \<^verbatim>\<open>execute\<close> is an effectful function of the repository's users: it fulfils
  with a value or rejects with an error, and what it does may depend on the executions
  that came before it.
\<close>

type_synonym tool = "(string \<times> args) list \<Rightarrow> args \<Rightarrow> error + jsvalue"

type_synonym executor = "args \<Rightarrow> world \<Rightarrow> (error + jsvalue) \<times> world"

definition tool_execute :: "string \<Rightarrow> tool \<Rightarrow> executor" where
  "tool_execute toolName tool args w =
     (tool (executed w) args, w\<lparr>executed := executed w @ [(toolName, args)]\<rparr>)"

definition backend_call ::
  "(trace_call \<Rightarrow> error option) \<Rightarrow> trace_call \<Rightarrow> world \<Rightarrow> (error + unit) \<times> world" where
  "backend_call throws c w =
     (case throws c of
        Some e \<Rightarrow> (Inl e, w)
      | None \<Rightarrow> (Inr (), w\<lparr>emitted := emitted w @ [c]\<rparr>))"

subsection \<open>\<^verbatim>\<open>safeTraceOperation\<close> and \<^verbatim>\<open>ensureTraceFlushed\<close>\<close>

text \<open>
  The operation is a closure: besides the world it may assign local variables of its
  creator, passed here as \<open>'l\<close>. No caller supplies \<^verbatim>\<open>defaultValue\<close>, so a caught
  exception yields \<^verbatim>\<open>undefined\<close>. What the operation did before it threw stays done.
\<close>

definition safeTraceOperation ::
  "('l \<times> world \<Rightarrow> (error + 'a) \<times> ('l \<times> world)) \<Rightarrow> string \<Rightarrow> 'l \<times> world
     \<Rightarrow> 'a option \<times> ('l \<times> world)" where
  "safeTraceOperation operation errorMessage s =
     (case operation s of
        (Inr v, s') \<Rightarrow> (Some v, s')
      | (Inl e, (l, w)) \<Rightarrow> (None, (l, w\<lparr>console := console w @ [errorMessage]\<rparr>)))"

definition ensureTraceFlushed ::
  "langfuseClient option \<Rightarrow> traceClient option \<Rightarrow> world \<Rightarrow> world" where
  "ensureTraceFlushed langfuse trace w =
     (let w1 = (case langfuse of
                  None \<Rightarrow> w
                | Some lf \<Rightarrow>
                    snd (snd (safeTraceOperation
                      (\<lambda>(l, w). case backend_call (lf_throws lf) Flush w of (r, w') \<Rightarrow> (r, (l, w')))
                      ''Failed to flush Langfuse instance'' ((), w))))
      in (case trace of
            None \<Rightarrow> w1
          | Some tr \<Rightarrow>
              if tc_hasFlush tr
              then snd (snd (safeTraceOperation
                     (\<lambda>(l, w). case backend_call (tc_throws tr) Flush w of (r, w') \<Rightarrow> (r, (l, w')))
                     ''Failed to flush trace'' ((), w1)))
              else w1))"

subsection \<open>\<^verbatim>\<open>wrapToolWithTracing\<close>\<close>

text \<open>The cache key, \<^verbatim>\<open>JSON.stringify({ toolName, args })\<close>.\<close>

definition cacheKey :: "string \<Rightarrow> args \<Rightarrow> string" where
  "cacheKey toolName args = stringify (JObj [(''toolName'', JStr toolName), (''args'', JObj args)])"

text \<open>
  The closure handed to \<^verbatim>\<open>safeTraceOperation\<close> by the wrapped \<^verbatim>\<open>execute\<close>. Its local
  state is the variable \<^verbatim>\<open>result\<close> of the enclosing function. The inner \<^verbatim>\<open>catch\<close>
  receives what the tool throws and also what the completion span throws; it logs an
  error span and rethrows.
\<close>

definition traced_catch ::
  "string \<Rightarrow> traceClient \<Rightarrow> error \<Rightarrow> jsvalue \<times> world \<Rightarrow> (error + jsvalue) \<times> (jsvalue \<times> world)" where
  "traced_catch toolName tr err s =
     (case s of (result, w) \<Rightarrow>
        (case backend_call (tc_throws tr) (Span (''tool-execution-'' @ toolName @ ''-error'')) w of
           (Inl e2, w') \<Rightarrow> (Inl e2, (result, w'))
         | (Inr u, w') \<Rightarrow> (Inl err, (result, w'))))"

definition traced_execution ::
  "string \<Rightarrow> tool \<Rightarrow> traceClient option \<Rightarrow> args \<Rightarrow> jsvalue \<times> world
     \<Rightarrow> (error + jsvalue) \<times> (jsvalue \<times> world)" where
  "traced_execution toolName tool trace args s =
     (case s of (result, w) \<Rightarrow>
        (case trace of
           None \<Rightarrow> (Inr None, (result, w))
         | Some tr \<Rightarrow>
             (case backend_call (tc_throws tr) (Span (''tool-execution-'' @ toolName)) w of
                (Inl e, w1) \<Rightarrow> (Inl e, (result, w1))
              | (Inr u, w1) \<Rightarrow>
                  (case tool_execute toolName tool args w1 of
                     (Inl err, w2) \<Rightarrow> traced_catch toolName tr err (result, w2)
                   | (Inr r, w2) \<Rightarrow>
                       (let w3 = w2\<lparr>toolResultCache :=
                                      (toolResultCache w2)(cacheKey toolName args \<mapsto> r)\<rparr>
                        in case backend_call (tc_throws tr)
                                  (Span (''tool-execution-'' @ toolName @ ''-complete'')) w3 of
                             (Inl err, w4) \<Rightarrow> traced_catch toolName tr err (r, w4)
                           | (Inr u, w4) \<Rightarrow> (Inr r, (r, w4)))))))"

text \<open>
  The \<^verbatim>\<open>execute\<close> of the wrapped tool: a cache hit returns the cached value; otherwise the
  traced execution runs under \<^verbatim>\<open>safeTraceOperation\<close> and the variable \<^verbatim>\<open>result\<close> is
  returned, whatever became of the operation.
\<close>

definition wrapToolWithTracing :: "string \<Rightarrow> tool \<Rightarrow> traceClient option \<Rightarrow> executor" where
  "wrapToolWithTracing toolName tool trace args w =
     (case toolResultCache w (cacheKey toolName args) of
        Some v \<Rightarrow> (Inr v, w\<lparr>console := console w @ [''Using cached result for '' @ toolName]\<rparr>)
      | None \<Rightarrow>
          (case safeTraceOperation (traced_execution toolName tool trace args)
                  (''Failed to trace tool execution for '' @ toolName) (None, w) of
             (r, (result, w')) \<Rightarrow> (Inr result, w')))"



subsection \<open>The generation engine\<close>

text \<open>
  Modelled from the spec: \<^verbatim>\<open>generateText\<close> belongs to the external SDK, which is not
  among the sources, and the language model behind it is a black box (sections 4.3 and 6 of
  the specification). The model is taken as a parameter: given the system prompt, the messages and
  the outcomes of the tool calls made so far, it emits a text with tool calls, or fails.
  The engine runs the tool calls of a step one after the other through the \<^verbatim>\<open>execute\<close>
  functions it was given, feeds the outcomes back, and stops at a step without tool calls
  or when the step budget is used up; its result carries the text and the tool calls of
  the last step. A call to a tool that was not supplied is answered with an error outcome.
  The tool choice and the telemetry settings that the agent passes along concern the model
  and the SDK only.
\<close>

record toolCall =
  call_toolName :: string
  call_args :: args
  call_hasOutput :: bool

datatype model_step = Emit string "toolCall list" | GenerationError error

type_synonym outcome = "error + jsvalue"

type_synonym languageModel = "string \<Rightarrow> (string \<times> string) list \<Rightarrow> outcome list \<Rightarrow> model_step"

record genResult =
  gen_text :: string
  gen_toolCalls :: "toolCall list"

fun run_tool_calls ::
  "(string \<times> executor) list \<Rightarrow> toolCall list \<Rightarrow> world \<Rightarrow> outcome list \<times> world" where
  "run_tool_calls tools [] w = ([], w)"
| "run_tool_calls tools (c # cs) w =
     (case (case map_of tools (call_toolName c) of
              None \<Rightarrow> (Inl (Error ''NoSuchToolError''), w)
            | Some ex \<Rightarrow> ex (call_args c) w) of
        (out, w') \<Rightarrow> (case run_tool_calls tools cs w' of (outs, w'') \<Rightarrow> (out # outs, w'')))"

fun generateText ::
  "(outcome list \<Rightarrow> model_step) \<Rightarrow> (string \<times> executor) list \<Rightarrow> nat \<Rightarrow> outcome list \<Rightarrow> world
     \<Rightarrow> (error + genResult) \<times> world" where
  "generateText model tools 0 outs w = (Inr \<lparr>gen_text = [], gen_toolCalls = []\<rparr>, w)"
| "generateText model tools (Suc n) outs w =
     (case model outs of
        GenerationError e \<Rightarrow> (Inl e, w)
      | Emit text calls \<Rightarrow>
          (case run_tool_calls tools calls w of
             (outs', w') \<Rightarrow>
               if calls = [] \<or> n = 0
               then (Inr \<lparr>gen_text = text, gen_toolCalls = calls\<rparr>, w')
               else generateText model tools n (outs @ outs') w'))"

subsection \<open>\<^verbatim>\<open>createAgent\<close>\<close>

text \<open>
  Of \<^verbatim>\<open>AgentConfig\<close> and \<^verbatim>\<open>AgentOptions\<close> the fields that steer the agent are kept;
  \<^verbatim>\<open>traceId\<close>, \<^verbatim>\<open>metadata\<close> and \<^verbatim>\<open>parentTraceId\<close> only feed the payloads of
  the backend calls. \<^verbatim>\<open>messages\<close> is an option of part_007.
\<close>

record agentConfig =
  cfg_name :: string
  cfg_trace :: "traceClient option"
  cfg_langfuse :: "langfuseClient option"
  cfg_createNewTrace :: bool
  cfg_isServerless :: bool

record agentOptions =
  opt_maxSteps :: "nat option"
  opt_systemPrompt :: string
  opt_tools :: "(string \<times> tool) list option"
  opt_model :: languageModel
  opt_requireStructuredOutput :: bool
  opt_messages :: "(string \<times> string) list option"

text \<open>
  The response: \<^verbatim>\<open>{toolCalls, structuredOutput}\<close> in structured mode, otherwise
  \<^verbatim>\<open>{messages: [{role: 'assistant', content}], toolResults}\<close>, where the top-level
  \<^verbatim>\<open>toolResults\<close> record exists in part_006 only. A content entry is
  \<^verbatim>\<open>{type: 'text', text}\<close> or \<^verbatim>\<open>{type: 'tool_call', toolName, args, toolResults}\<close>.
\<close>

datatype content = TextContent string | ToolCallContent string args jsvalue

datatype response =
    Structured "toolCall list" jsvalue
  | Unstructured "content list" "(string \<times> json) list option"

text \<open>A sequence of backend calls made inside one \<^verbatim>\<open>safeTraceOperation\<close>.\<close>

fun backend_calls ::
  "(trace_call \<Rightarrow> error option) \<Rightarrow> trace_call list \<Rightarrow> world \<Rightarrow> (error + unit) \<times> world" where
  "backend_calls throws [] w = (Inr (), w)"
| "backend_calls throws (c # cs) w =
     (case backend_call throws c w of
        (Inl e, w') \<Rightarrow> (Inl e, w')
      | (Inr u, w') \<Rightarrow> backend_calls throws cs w')"

definition safe_backend_calls ::
  "(trace_call \<Rightarrow> error option) \<Rightarrow> trace_call list \<Rightarrow> string \<Rightarrow> world \<Rightarrow> world" where
  "safe_backend_calls throws cs errorMessage w =
     snd (snd (safeTraceOperation
       (\<lambda>(l, w). case backend_calls throws cs w of (r, w') \<Rightarrow> (r, (l, w')))
       errorMessage ((), w)))"

text \<open>
  ``Create new trace if requested or if no trace exists'': the trace of the run is the one
  \<^verbatim>\<open>langfuse.trace\<close> returns, or else the one the configuration brought.
\<close>

definition start_trace :: "agentConfig \<Rightarrow> world \<Rightarrow> traceClient option \<times> world" where
  "start_trace cfg w =
     (case cfg_langfuse cfg of
        None \<Rightarrow> (cfg_trace cfg, w)
      | Some lf \<Rightarrow>
          if (case cfg_trace cfg of None \<Rightarrow> True | Some t \<Rightarrow> cfg_createNewTrace cfg)
          then (case safeTraceOperation
                       (\<lambda>(l, w). case backend_call (lf_throws lf)
                                        (TraceCreate (cfg_name cfg @ ''-trace'')) w of
                                   (Inl e, w') \<Rightarrow> (Inl e, (l, w'))
                                 | (Inr u, w') \<Rightarrow> (Inr (lf_newTrace lf), (l, w')))
                       ''Failed to create Langfuse trace'' ((), w) of
                  (Some newTrace, (l, w')) \<Rightarrow> (Some newTrace, w')
                | (None, (l, w')) \<Rightarrow> (cfg_trace cfg, w'))
          else (cfg_trace cfg, w))"

text \<open>
  ``Wrap tools with tracing if they exist and tracing is available'':
  \<^verbatim>\<open>options.tools && trace ? (every tool wrapped) : options.tools\<close>.
\<close>

definition wrap_tools ::
  "(string \<times> tool) list option \<Rightarrow> traceClient option \<Rightarrow> (string \<times> executor) list" where
  "wrap_tools tools trace =
     (case tools of
        None \<Rightarrow> []
      | Some ts \<Rightarrow>
          (case trace of
             None \<Rightarrow> map (\<lambda>(name, tool). (name, tool_execute name tool)) ts
           | Some tr \<Rightarrow> map (\<lambda>(name, tool). (name, wrapToolWithTracing name tool (Some tr))) ts))"

text \<open>\<^verbatim>\<open>options.maxSteps || 3\<close>.\<close>

definition step_budget :: "agentOptions \<Rightarrow> nat" where
  "step_budget opts = (case opt_maxSteps opts of None \<Rightarrow> 3 | Some n \<Rightarrow> if n = 0 then 3 else n)"

definition finish_flush :: "agentConfig \<Rightarrow> traceClient option \<Rightarrow> world \<Rightarrow> world" where
  "finish_flush cfg trace w =
     (if cfg_isServerless cfg
         \<or> (cfg_createNewTrace cfg \<and> (case cfg_langfuse cfg of None \<Rightarrow> False | Some lf \<Rightarrow> True))
      then ensureTraceFlushed (cfg_langfuse cfg) trace w
      else w)"

text \<open>\<^verbatim>\<open>Object.assign(acc, { [key]: value })\<close> on the properties of \<open>acc\<close>.\<close>

fun assign_property :: "(string \<times> 'v) list \<Rightarrow> string \<Rightarrow> 'v \<Rightarrow> (string \<times> 'v) list" where
  "assign_property [] k v = [(k, v)]"
| "assign_property ((k', v') # ps) k v =
     (if k' = k then (k, v) # ps else (k', v') # assign_property ps k v)"

subsubsection \<open>The module of src/unnamed/part_006\<close>

definition tool_call_contents :: "toolCall list \<Rightarrow> content list" where
  "tool_call_contents calls =
     map (\<lambda>toolCall. ToolCallContent (call_toolName toolCall) (call_args toolCall)
                        (Some (JObj (call_args toolCall)))) calls"

definition tool_results_record :: "toolCall list \<Rightarrow> (string \<times> json) list" where
  "tool_results_record calls =
     foldl (\<lambda>acc call. assign_property acc (call_toolName call) (JObj (call_args call))) [] calls"

definition format_response :: "bool \<Rightarrow> genResult \<Rightarrow> response" where
  "format_response requireStructuredOutput result =
     (if requireStructuredOutput
      then Structured (gen_toolCalls result) (Some (JStr (gen_text result)))
      else Unstructured
             (TextContent (gen_text result) # tool_call_contents (gen_toolCalls result))
             (Some (tool_results_record (gen_toolCalls result))))"

text \<open>The tool calls of the result are logged one \<^verbatim>\<open>safeTraceOperation\<close> each.\<close>

definition log_tool_calls :: "traceClient \<Rightarrow> toolCall list \<Rightarrow> world \<Rightarrow> world" where
  "log_tool_calls tr calls w =
     foldl (\<lambda>w toolCall.
              safe_backend_calls (tc_throws tr)
                (Generation (''tool-call-'' @ call_toolName toolCall)
                 # (if call_hasOutput toolCall
                    then [GenerationUpdate (''tool-call-'' @ call_toolName toolCall)] else []))
                (''Failed to log tool call for '' @ call_toolName toolCall) w)
           w calls"

text \<open>
  The first half of the agent function: a fresh cache, the trace of the run, the start
  span, the tools wrapped, and the call of the generation engine.
\<close>

definition agent_generation ::
  "agentConfig \<Rightarrow> agentOptions \<Rightarrow> string \<Rightarrow> world
     \<Rightarrow> traceClient option \<times> (error + genResult) \<times> world" where
  "agent_generation cfg opts userPrompt w0 =
     (case start_trace cfg (w0\<lparr>toolResultCache := Map.empty\<rparr>) of
        (trace, w1) \<Rightarrow>
          (let w2 = (case trace of
                       None \<Rightarrow> w1
                     | Some tr \<Rightarrow> safe_backend_calls (tc_throws tr)
                                   [Span (cfg_name cfg @ ''-agent-start'')]
                                   ''Failed to create agent start span'' w1);
               wrappedTools = wrap_tools (opt_tools opts) trace
           in (trace,
               generateText (opt_model opts (opt_systemPrompt opts) [(''user'', userPrompt)])
                 wrappedTools (step_budget opts) [] w2)))"

text \<open>
  The agent function returned by \<^verbatim>\<open>createAgent(config)\<close>: the response or the error
  thrown, and the world it leaves.
\<close>

definition createAgent ::
  "agentConfig \<Rightarrow> agentOptions \<Rightarrow> string \<Rightarrow> world \<Rightarrow> (error + response) \<times> world" where
  "createAgent cfg opts userPrompt w0 =
     (case agent_generation cfg opts userPrompt w0 of
        (trace, Inr result, w3) \<Rightarrow>
          (let w4 = (case trace of
                       None \<Rightarrow> w3
                     | Some tr \<Rightarrow> log_tool_calls tr (gen_toolCalls result) w3);
               response = format_response (opt_requireStructuredOutput opts) result;
               w5 = (case trace of
                       None \<Rightarrow> w4
                     | Some tr \<Rightarrow> safe_backend_calls (tc_throws tr)
                                   [Span (cfg_name cfg @ ''-agent-complete''), TraceUpdate]
                                   ''Failed to log agent completion'' w4)
           in (Inr response, finish_flush cfg trace w5))
      | (trace, Inl error, w3) \<Rightarrow>
          (let w4 = (case trace of
                       None \<Rightarrow> w3
                     | Some tr \<Rightarrow> safe_backend_calls (tc_throws tr)
                                   [Span (cfg_name cfg @ ''-agent-error'')]
                                   ''Failed to log agent error'' w3)
           in (Inl error, finish_flush cfg trace w4)))"

subsubsection \<open>The module of src/unnamed/part_007\<close>

text \<open>\<^verbatim>\<open>toolResultCache.get(JSON.stringify({ toolName, args }))\<close>.\<close>

definition cached_result :: "world \<Rightarrow> toolCall \<Rightarrow> jsvalue" where
  "cached_result w c =
     (case toolResultCache w (cacheKey (call_toolName c) (call_args c)) of
        None \<Rightarrow> None
      | Some v \<Rightarrow> v)"

text \<open>
  The backend calls made for one tool call of the result; they are not wrapped in
  \<^verbatim>\<open>safeTraceOperation\<close>.
\<close>

definition tool_call_log :: "world \<Rightarrow> toolCall \<Rightarrow> trace_call list" where
  "tool_call_log w c =
     [Generation (''tool-call-'' @ call_toolName c), Span (''tool-execution-'' @ call_toolName c)]
     @ (if truthy (cached_result w c)
        then [GenerationUpdate (''tool-call-'' @ call_toolName c),
              SpanEnd (''tool-execution-'' @ call_toolName c)]
        else [])"

definition format_response_core :: "bool \<Rightarrow> genResult \<Rightarrow> world \<Rightarrow> response" where
  "format_response_core requireStructuredOutput result w =
     (if requireStructuredOutput
      then Structured (gen_toolCalls result) (Some (JStr (gen_text result)))
      else Unstructured
             (TextContent (gen_text result)
              # map (\<lambda>toolCall. ToolCallContent (call_toolName toolCall) (call_args toolCall)
                                  (cached_result w toolCall)) (gen_toolCalls result))
             None)"

definition agent_generation_core ::
  "agentConfig \<Rightarrow> agentOptions \<Rightarrow> string \<Rightarrow> world
     \<Rightarrow> traceClient option \<times> (error + genResult) \<times> world" where
  "agent_generation_core cfg opts userPrompt w0 =
     (case start_trace cfg (w0\<lparr>toolResultCache := Map.empty\<rparr>) of
        (trace, w1) \<Rightarrow>
          (let w2 = (case trace of
                       None \<Rightarrow> w1
                     | Some tr \<Rightarrow> safe_backend_calls (tc_throws tr)
                                   [Generation ''initial-prompt'',
                                    Span (cfg_name cfg @ ''-agent-execution'')]
                                   ''Failed to create agent spans'' w1);
               wrappedTools = wrap_tools (opt_tools opts) trace;
               messages = (case opt_messages opts of None \<Rightarrow> [] | Some ms \<Rightarrow> ms)
                            @ [(''user'', userPrompt)]
           in (trace,
               generateText (opt_model opts (opt_systemPrompt opts) messages)
                 wrappedTools (step_budget opts) [] w2)))"

text \<open>
  After the generation the tool calls, the final generation and the trace update go to the
  backend unguarded, inside the \<^verbatim>\<open>try\<close> block: what they throw reaches the
  \<^verbatim>\<open>catch\<close>, which logs an error span and rethrows.
\<close>

definition createAgent_core ::
  "agentConfig \<Rightarrow> agentOptions \<Rightarrow> string \<Rightarrow> world \<Rightarrow> (error + response) \<times> world" where
  "createAgent_core cfg opts userPrompt w0 =
     (case agent_generation_core cfg opts userPrompt w0 of
        (trace, generated) \<Rightarrow>
          (case (case generated of
                   (Inl error, w3) \<Rightarrow> (Inl error, w3)
                 | (Inr result, w3) \<Rightarrow>
                     (let response = format_response_core (opt_requireStructuredOutput opts)
                                       result w3
                      in case trace of
                           None \<Rightarrow> (Inr response, w3)
                         | Some tr \<Rightarrow>
                             (case backend_calls (tc_throws tr)
                                     (concat (map (tool_call_log w3) (gen_toolCalls result))
                                      @ [Generation ''final-response'', TraceUpdate]) w3 of
                                (Inl error, w4) \<Rightarrow> (Inl error, w4)
                              | (Inr u, w4) \<Rightarrow> (Inr response, w4)))) of
             (Inr response, w4) \<Rightarrow> (Inr response, finish_flush cfg trace w4)
           | (Inl error, w4) \<Rightarrow>
               (let w5 = (case trace of
                            None \<Rightarrow> w4
                          | Some tr \<Rightarrow> safe_backend_calls (tc_throws tr)
                                        [Span (cfg_name cfg @ ''-agent-error'')]
                                        ''Failed to log agent error'' w4)
                in (Inl error, finish_flush cfg trace w5))))"

subsection \<open>Example backends, tools and models\<close>

definition empty_world :: world where
  "empty_world = \<lparr>toolResultCache = Map.empty, emitted = [], executed = [], console = []\<rparr>"

text \<open>A trace client and a Langfuse client that throw on every method, and a healthy client.\<close>

definition throwing_trace :: traceClient where
  "throwing_trace = \<lparr>tc_throws = (\<lambda>c. Some (Error ''trace backend unavailable'')),
                     tc_hasFlush = True\<rparr>"

definition throwing_langfuse :: langfuseClient where
  "throwing_langfuse = \<lparr>lf_throws = (\<lambda>c. Some (Error ''trace backend unavailable'')),
                        lf_newTrace = throwing_trace\<rparr>"

definition healthy_trace :: traceClient where
  "healthy_trace = \<lparr>tc_throws = (\<lambda>c. None), tc_hasFlush = True\<rparr>"

text \<open>
  A weather tool that fulfils, a tool that rejects (the tests' ``unreliable'' tool), and a
  tool that reports how many executions came before it.
\<close>

definition weather_tool :: tool where
  "weather_tool history a = Inr (Some (JObj [(''temperature'', JNum 21), (''conditions'', JStr ''sunny'')]))"

definition unreliable_tool :: tool where
  "unreliable_tool history a = Inl (Error ''Tool failed as requested'')"


definition tokyo :: args where
  "tokyo = [(''location'', JStr ''Tokyo'')]"

definition fail_args :: args where
  "fail_args = [(''shouldFail'', JBool True)]"

definition paris :: args where
  "paris = [(''location'', JStr ''Paris'')]"

definition weather_call :: toolCall where
  "weather_call = \<lparr>call_toolName = ''getWeather'', call_args = tokyo, call_hasOutput = False\<rparr>"

text \<open>
  A model that asks for the weather once and then answers with the temperature it was
  given, if any; a model that asks for the same weather twice; and a model whose only
  action is the tool call it ends on.
\<close>

definition asks_once :: languageModel where
  "asks_once system messages outs =
     (case outs of
        [] \<Rightarrow> Emit [] [weather_call]
      | out # rest \<Rightarrow>
          (case out of
             Inr (Some v) \<Rightarrow> Emit (''It is '' @ template (get_prop (Some v) ''temperature'')
                                      @ '' degrees in Tokyo.'') []
           | _ \<Rightarrow> Emit ''I could not get the weather.'' []))"


definition analysis_args :: args where
  "analysis_args = [(''a'', JNum 1), (''b'', JStr ''x'')]"

definition ends_on_tool_call :: languageModel where
  "ends_on_tool_call system messages outs =
     Emit [] [\<lparr>call_toolName = ''X'', call_args = analysis_args, call_hasOutput = False\<rparr>]"

definition example_config :: "traceClient option \<Rightarrow> langfuseClient option \<Rightarrow> agentConfig" where
  "example_config trace langfuse =
     \<lparr>cfg_name = ''weather-agent'', cfg_trace = trace, cfg_langfuse = langfuse,
      cfg_createNewTrace = False, cfg_isServerless = True\<rparr>"

definition example_options :: "languageModel \<Rightarrow> (string \<times> tool) list \<Rightarrow> bool \<Rightarrow> agentOptions" where
  "example_options model tools structured =
     \<lparr>opt_maxSteps = None, opt_systemPrompt = ''You are a helpful weather assistant.'',
      opt_tools = Some tools, opt_model = model, opt_requireStructuredOutput = structured,
      opt_messages = None\<rparr>"

section \<open>\<^verbatim>\<open>JSON.stringify\<close> can be read back\<close>

text \<open>
  Two values with the same serialization are the same value. The proof reads a serialized
  value off the front of a text: numerals end where the digits end, strings at the closing
  quote, arrays and objects at their closing bracket.
\<close>

lemma digit_char_is_digit: "is_digit (digit_char n)"
proof -
  have "n mod 10 < length ''0123456789''" by simp
  then have "''0123456789'' ! (n mod 10) \<in> set ''0123456789''" by (rule nth_mem)
  then show ?thesis by (simp only: is_digit_def digit_char_def)
qed

lemma digit_char_inj:
  assumes "n < 10" "m < 10" "digit_char n = digit_char m"
  shows "n = m"
proof -
  have d: "distinct ''0123456789''" by simp
  have "n < length ''0123456789''" "m < length ''0123456789''" using assms by simp_all
  with d assms(3) show ?thesis
    using assms(1,2) by (simp only: digit_char_def mod_less nth_eq_iff_index_eq)
qed

lemma hex_char_inj:
  assumes "n < 16" "m < 16" "hex_char n = hex_char m"
  shows "n = m"
proof -
  have d: "distinct ''0123456789abcdef''" by simp
  have "n < length ''0123456789abcdef''" "m < length ''0123456789abcdef''" using assms by simp_all
  with d assms(3) show ?thesis
    using assms(1,2) by (simp only: hex_char_def mod_less nth_eq_iff_index_eq)
qed

lemma show_nat_nonempty: "show_nat n \<noteq> []"
  by (subst show_nat.simps) simp

lemma show_nat_digits: "c \<in> set (show_nat n) \<Longrightarrow> is_digit c"
proof (induction n arbitrary: c rule: show_nat.induct)
  case (1 n)
  show ?case
  proof (cases "n < 10")
    case True
    with "1.prems" show ?thesis
      by (subst (asm) show_nat.simps) (simp add: digit_char_is_digit)
  next
    case False
    with "1.prems" have "c \<in> set (show_nat (n div 10)) \<or> c = digit_char (n mod 10)"
      by (subst (asm) show_nat.simps) auto
    with "1.IH"[OF False] show ?thesis by (auto simp: digit_char_is_digit)
  qed
qed

lemma show_nat_inj: "show_nat n = show_nat m \<Longrightarrow> n = m"
proof (induction n arbitrary: m rule: show_nat.induct)
  case (1 n)
  show ?case
  proof (cases "n < 10")
    case n: True
    show ?thesis
    proof (cases "m < 10")
      case True
      with n "1.prems" show ?thesis
        by (subst (asm) show_nat.simps, subst (asm) (2) show_nat.simps) (auto dest: digit_char_inj)
    next
      case False
      with n "1.prems" have "[digit_char n] = show_nat (m div 10) @ [digit_char (m mod 10)]"
        by (subst (asm) show_nat.simps, subst (asm) (2) show_nat.simps) simp
      then show ?thesis using show_nat_nonempty[of "m div 10"] by simp
    qed
  next
    case n: False
    show ?thesis
    proof (cases "m < 10")
      case True
      with n "1.prems" have "show_nat (n div 10) @ [digit_char (n mod 10)] = [digit_char m]"
        by (subst (asm) show_nat.simps, subst (asm) (2) show_nat.simps) simp
      then show ?thesis using show_nat_nonempty[of "n div 10"] by simp
    next
      case False
      with n "1.prems" have e: "show_nat (n div 10) @ [digit_char (n mod 10)]
          = show_nat (m div 10) @ [digit_char (m mod 10)]"
        by (subst (asm) show_nat.simps, subst (asm) (2) show_nat.simps) simp
      then have "show_nat (n div 10) = show_nat (m div 10)"
        and d: "digit_char (n mod 10) = digit_char (m mod 10)" by simp_all
      then have q: "n div 10 = m div 10" using "1.IH"[OF n] by blast
      have r: "n mod 10 = m mod 10"
        by (rule digit_char_inj[OF _ _ d]) simp_all
      show ?thesis using q r by (metis div_mult_mod_eq)
    qed
  qed
qed

lemma takeWhile_digits:
  assumes "\<And>c. c \<in> set xs \<Longrightarrow> is_digit c" and "no_digit_ahead r"
  shows "takeWhile is_digit (xs @ r) = xs"
proof -
  have "takeWhile is_digit r = []"
    using assms(2) by (cases r) (simp_all add: no_digit_ahead_def)
  then show ?thesis using assms(1) by (simp add: takeWhile_append2)
qed

lemma show_nat_prefix:
  assumes "show_nat n @ r = show_nat m @ r'" "no_digit_ahead r" "no_digit_ahead r'"
  shows "n = m \<and> r = r'"
proof -
  have "takeWhile is_digit (show_nat n @ r) = show_nat n"
    using assms(2) by (intro takeWhile_digits show_nat_digits)
  moreover have "takeWhile is_digit (show_nat m @ r') = show_nat m"
    using assms(3) by (intro takeWhile_digits show_nat_digits)
  ultimately have e: "show_nat n = show_nat m" using assms(1) by simp
  then have "n = m" by (rule show_nat_inj)
  with assms(1) e show ?thesis by simp
qed

lemma show_nat_hd: "\<exists>c cs. show_nat n = c # cs \<and> is_digit c"
proof (cases "show_nat n")
  case Nil
  then show ?thesis using show_nat_nonempty by blast
next
  case (Cons c cs)
  then have "c \<in> set (show_nat n)" by simp
  then have "is_digit c" by (rule show_nat_digits)
  with Cons show ?thesis by blast
qed

lemma minus_no_digit: "\<not> is_digit CHR ''-''"
  by (simp add: is_digit_def)

lemma show_int_prefix:
  assumes "show_int i @ r = show_int j @ r'" "no_digit_ahead r" "no_digit_ahead r'"
  shows "i = j \<and> r = r'"
proof -
  obtain c cs where ci: "show_nat (nat i) = c # cs" "is_digit c" using show_nat_hd by blast
  obtain d ds where dj: "show_nat (nat j) = d # ds" "is_digit d" using show_nat_hd by blast
  consider "i < 0" "j < 0" | "i < 0" "\<not> j < 0" | "\<not> i < 0" "j < 0" | "\<not> i < 0" "\<not> j < 0"
    by blast
  then show ?thesis
  proof cases
    case 1
    with assms(1) have "show_nat (nat (- i)) @ r = show_nat (nat (- j)) @ r'"
      by (simp add: show_int_def)
    from show_nat_prefix[OF this assms(2,3)] 1 show ?thesis by auto
  next
    case 2
    with assms(1) dj minus_no_digit show ?thesis by (auto simp: show_int_def)
  next
    case 3
    with assms(1) ci minus_no_digit show ?thesis by (auto simp: show_int_def)
  next
    case 4
    with assms(1) have "show_nat (nat i) @ r = show_nat (nat j) @ r'"
      by (simp add: show_int_def)
    from show_nat_prefix[OF this assms(2,3)] 4 show ?thesis by auto
  qed
qed

lemma low_char_eq:
  assumes "(of_char c :: nat) < 32" "(of_char d :: nat) < 32"
    and "hex_char ((of_char c :: nat) div 16) = hex_char ((of_char d :: nat) div 16)"
    and "hex_char ((of_char c :: nat) mod 16) = hex_char ((of_char d :: nat) mod 16)"
  shows "c = d"
proof -
  have "(of_char c :: nat) div 16 = (of_char d :: nat) div 16"
    using assms(1,2) by (intro hex_char_inj[OF _ _ assms(3)]) simp_all
  moreover have "(of_char c :: nat) mod 16 = (of_char d :: nat) mod 16"
    by (intro hex_char_inj[OF _ _ assms(4)]) simp_all
  ultimately have "(of_char c :: nat) = of_char d" by (metis div_mult_mod_eq)
  then show ?thesis by simp
qed

lemma escape_char_prefix:
  "escape_char c @ x = escape_char d @ y \<Longrightarrow> c = d \<and> x = y"
  unfolding escape_char_def
  by (auto split: if_splits dest: low_char_eq)

lemma escape_char_hd: "\<exists>e es. escape_char c = e # es \<and> e \<noteq> CHR 0x22"
  unfolding escape_char_def by auto

lemma escaped_prefix:
  "concat (map escape_char s) @ CHR 0x22 # r = concat (map escape_char t) @ CHR 0x22 # r'
   \<Longrightarrow> s = t \<and> r = r'"
proof (induction s arbitrary: t)
  case Nil
  show ?case
  proof (cases t)
    case Nil
    with Nil.prems show ?thesis by simp
  next
    case (Cons d t')
    obtain e es where "escape_char d = e # es" "e \<noteq> CHR 0x22" using escape_char_hd by blast
    with Nil.prems Cons show ?thesis by simp
  qed
next
  case (Cons c s)
  show ?case
  proof (cases t)
    case Nil
    obtain e es where "escape_char c = e # es" "e \<noteq> CHR 0x22" using escape_char_hd by blast
    with Cons.prems Nil show ?thesis by simp
  next
    case t: (Cons d t')
    from Cons.prems have "escape_char c @ (concat (map escape_char s) @ CHR 0x22 # r)
        = escape_char d @ (concat (map escape_char t') @ CHR 0x22 # r')"
      by (simp add: t)
    from escape_char_prefix[OF this] have cd: "c = d"
      and rest: "concat (map escape_char s) @ CHR 0x22 # r
                 = concat (map escape_char t') @ CHR 0x22 # r'" by simp_all
    from Cons.IH[OF rest] cd t show ?thesis by simp
  qed
qed

lemma quote_prefix: "quote s @ r = quote t @ r' \<Longrightarrow> s = t \<and> r = r'"
  using escaped_prefix[of s r t r'] by (simp add: quote_def)

lemma is_digit_value_start: "is_digit c \<Longrightarrow> value_start c"
  by (auto simp: is_digit_def value_start_def)

lemma stringify_hd: "\<exists>c cs. stringify a = c # cs \<and> value_start c"
proof (cases a)
  case (JNum n)
  obtain c cs where "show_nat (nat n) = c # cs" "is_digit c" using show_nat_hd by blast
  then show ?thesis
    using JNum by (auto simp: show_int_def value_start_def dest: is_digit_value_start)
qed (auto simp: value_start_def quote_def)

lemma stringify_first:
  assumes "stringify a @ r = c # cs"
  shows "value_start c"
proof -
  obtain d ds where "stringify a = d # ds" "value_start d" using stringify_hd by blast
  with assms show ?thesis by simp
qed

lemma no_digit_ahead_simps [simp]:
  "no_digit_ahead (CHR '','' # r)" "no_digit_ahead (CHR '']'' # r)" "no_digit_ahead (CHR ''}'' # r)"
  "no_digit_ahead []"
  by (simp_all add: no_digit_ahead_def is_digit_def)

lemma not_value_start [simp]:
  "\<not> value_start CHR '',''" "\<not> value_start CHR '']''" "\<not> value_start CHR ''}''" "\<not> value_start CHR '':''"
  by (simp_all add: value_start_def)

lemma show_int_hd: "\<exists>c cs. show_int i = c # cs \<and> (c = CHR ''-'' \<or> is_digit c)"
proof -
  obtain c cs where "show_nat (nat i) = c # cs" "is_digit c" using show_nat_hd by blast
  then show ?thesis by (auto simp: show_int_def)
qed

lemma elems_cases:
  obtains "ys = []" | y where "ys = [y]" | y z zs where "ys = y # z # zs"
  by (cases ys rule: remdups_adj.cases) auto

lemma members_cases:
  obtains "ls = []" | k v where "ls = [(k, v)]" | k v m ms where "ls = (k, v) # m # ms"
proof (cases ls rule: elems_cases)
  case 1
  then show ?thesis using that by blast
next
  case (2 y)
  then show ?thesis using that by (cases y) blast
next
  case (3 y z zs)
  then show ?thesis using that by (cases y) blast
qed

lemma stringify_prefix_all:
  "(\<forall>b r r'. no_digit_ahead r \<longrightarrow> no_digit_ahead r' \<longrightarrow>
       stringify a @ r = stringify b @ r' \<longrightarrow> a = b \<and> r = r')"
  "(\<forall>ys r r'. stringify_elems xs @ CHR '']'' # r = stringify_elems ys @ CHR '']'' # r'
       \<longrightarrow> xs = ys \<and> r = r')"
  "(\<forall>ls r r'. stringify_members kvs @ CHR ''}'' # r = stringify_members ls @ CHR ''}'' # r'
       \<longrightarrow> kvs = ls \<and> r = r')"
proof (induction a and xs and kvs rule: stringify_stringify_elems_stringify_members.induct)
  case 1
  show ?case
  proof (intro allI impI)
    fix b r r' assume "no_digit_ahead r" "no_digit_ahead r'" and eq: "stringify JNull @ r = stringify b @ r'"
    show "JNull = b \<and> r = r'"
    proof (cases b)
      case (JNum m)
      obtain c cs where "show_int m = c # cs" "c = CHR ''-'' \<or> is_digit c"
        using show_int_hd by blast
      with eq JNum show ?thesis by (auto simp: is_digit_def)
    qed (use eq in \<open>auto simp: quote_def split: if_splits\<close>)
  qed
next
  case (2 v)
  show ?case
  proof (intro allI impI)
    fix b r r' assume "no_digit_ahead r" "no_digit_ahead r'" and eq: "stringify (JBool v) @ r = stringify b @ r'"
    show "JBool v = b \<and> r = r'"
    proof (cases b)
      case (JNum m)
      obtain c cs where "show_int m = c # cs" "c = CHR ''-'' \<or> is_digit c"
        using show_int_hd by blast
      with eq JNum show ?thesis by (auto simp: is_digit_def split: if_splits)
    qed (use eq in \<open>auto simp: quote_def split: if_splits\<close>)
  qed
next
  case (3 n)
  show ?case
  proof (intro allI impI)
    fix b r r' assume nd: "no_digit_ahead r" "no_digit_ahead r'"
      and eq: "stringify (JNum n) @ r = stringify b @ r'"
    obtain c cs where c: "show_int n = c # cs" "c = CHR ''-'' \<or> is_digit c"
      using show_int_hd by blast
    show "JNum n = b \<and> r = r'"
    proof (cases b)
      case (JNum m)
      with eq have "show_int n @ r = show_int m @ r'" by simp
      from show_int_prefix[OF this nd] JNum show ?thesis by simp
    qed (use eq c in \<open>auto simp: quote_def is_digit_def split: if_splits\<close>)
  qed
next
  case (4 s)
  show ?case
  proof (intro allI impI)
    fix b r r' assume nd: "no_digit_ahead r" "no_digit_ahead r'"
      and eq: "stringify (JStr s) @ r = stringify b @ r'"
    show "JStr s = b \<and> r = r'"
    proof (cases b)
      case (JNum m)
      obtain c cs where "show_int m = c # cs" "c = CHR ''-'' \<or> is_digit c"
        using show_int_hd by blast
      with eq JNum show ?thesis by (auto simp: is_digit_def quote_def)
    next
      case (JStr t)
      with eq have "quote s @ r = quote t @ r'" by simp
      from quote_prefix[OF this] JStr show ?thesis by simp
    qed (use eq in \<open>auto simp: quote_def split: if_splits\<close>)
  qed
next
  case (5 xs)
  show ?case
  proof (intro allI impI)
    fix b r r' assume nd: "no_digit_ahead r" "no_digit_ahead r'"
      and eq: "stringify (JArr xs) @ r = stringify b @ r'"
    show "JArr xs = b \<and> r = r'"
    proof (cases b)
      case (JNum m)
      obtain c cs where "show_int m = c # cs" "c = CHR ''-'' \<or> is_digit c"
        using show_int_hd by blast
      with eq JNum show ?thesis by (auto simp: is_digit_def)
    next
      case (JArr ys)
      with eq have "stringify_elems xs @ CHR '']'' # r = stringify_elems ys @ CHR '']'' # r'"
        by simp
      with 5 JArr show ?thesis by blast
    qed (use eq in \<open>auto simp: quote_def split: if_splits\<close>)
  qed
next
  case (6 kvs)
  show ?case
  proof (intro allI impI)
    fix b r r' assume nd: "no_digit_ahead r" "no_digit_ahead r'"
      and eq: "stringify (JObj kvs) @ r = stringify b @ r'"
    show "JObj kvs = b \<and> r = r'"
    proof (cases b)
      case (JNum m)
      obtain c cs where "show_int m = c # cs" "c = CHR ''-'' \<or> is_digit c"
        using show_int_hd by blast
      with eq JNum show ?thesis by (auto simp: is_digit_def)
    next
      case (JObj ls)
      with eq have "stringify_members kvs @ CHR ''}'' # r = stringify_members ls @ CHR ''}'' # r'"
        by simp
      with 6 JObj show ?thesis by blast
    qed (use eq in \<open>auto simp: quote_def split: if_splits\<close>)
  qed
next
  case 7
  show ?case
  proof (intro allI impI)
    fix ys r r'
    assume eq: "stringify_elems [] @ CHR '']'' # r = stringify_elems ys @ CHR '']'' # r'"
    show "[] = ys \<and> r = r'"
    proof (cases ys rule: elems_cases)
      case 1
      with eq show ?thesis by simp
    next
      case (2 y)
      with eq have "stringify y @ CHR '']'' # r' = CHR '']'' # r" by simp
      from stringify_first[OF this] show ?thesis by simp
    next
      case (3 y z zs)
      with eq have "stringify y @ (CHR '','' # stringify_elems (z # zs) @ CHR '']'' # r') = CHR '']'' # r"
        by simp
      from stringify_first[OF this] show ?thesis by simp
    qed
  qed
next
  case (8 x)
  show ?case
  proof (intro allI impI)
    fix ys r r'
    assume eq: "stringify_elems [x] @ CHR '']'' # r = stringify_elems ys @ CHR '']'' # r'"
    show "[x] = ys \<and> r = r'"
    proof (cases ys rule: elems_cases)
      case 1
      with eq have "stringify x @ CHR '']'' # r = CHR '']'' # r'" by simp
      from stringify_first[OF this] show ?thesis by simp
    next
      case (2 y)
      with eq have "stringify x @ CHR '']'' # r = stringify y @ CHR '']'' # r'" by simp
      with 8 have "x = y \<and> CHR '']'' # r = CHR '']'' # r'"
        by (metis no_digit_ahead_simps(2))
      with 2 show ?thesis by simp
    next
      case (3 y z zs)
      with eq have "stringify x @ CHR '']'' # r
          = stringify y @ CHR '','' # (stringify_elems (z # zs) @ CHR '']'' # r')" by simp
      with 8 have "x = y \<and> CHR '']'' # r = CHR '','' # (stringify_elems (z # zs) @ CHR '']'' # r')"
        by (metis no_digit_ahead_simps(1,2))
      then show ?thesis by simp
    qed
  qed
next
  case (9 x y ys)
  show ?case
  proof (intro allI impI)
    fix zs r r'
    assume eq: "stringify_elems (x # y # ys) @ CHR '']'' # r = stringify_elems zs @ CHR '']'' # r'"
    show "x # y # ys = zs \<and> r = r'"
    proof (cases zs rule: elems_cases)
      case 1
      with eq have "stringify x @ (CHR '','' # stringify_elems (y # ys) @ CHR '']'' # r) = CHR '']'' # r'"
        by simp
      from stringify_first[OF this] show ?thesis by simp
    next
      case (2 z)
      with eq have "stringify x @ CHR '','' # (stringify_elems (y # ys) @ CHR '']'' # r)
          = stringify z @ CHR '']'' # r'" by simp
      with 9(1) have "x = z \<and> CHR '','' # (stringify_elems (y # ys) @ CHR '']'' # r) = CHR '']'' # r'"
        by (metis no_digit_ahead_simps(1,2))
      then show ?thesis by simp
    next
      case (3 z u us)
      with eq have e: "stringify x @ CHR '','' # (stringify_elems (y # ys) @ CHR '']'' # r)
          = stringify z @ CHR '','' # (stringify_elems (u # us) @ CHR '']'' # r')" by simp
      with 9(1) have xz: "x = z"
        and rest: "CHR '','' # (stringify_elems (y # ys) @ CHR '']'' # r)
                   = CHR '','' # (stringify_elems (u # us) @ CHR '']'' # r')"
        by (metis no_digit_ahead_simps(1))+
      from rest have "stringify_elems (y # ys) @ CHR '']'' # r
                   = stringify_elems (u # us) @ CHR '']'' # r'" by simp
      with 9(2) have "y # ys = u # us \<and> r = r'" by blast
      with xz 3 show ?thesis by simp
    qed
  qed
next
  case 10
  show ?case
  proof (intro allI impI)
    fix ls r r'
    assume eq: "stringify_members [] @ CHR ''}'' # r = stringify_members ls @ CHR ''}'' # r'"
    show "[] = ls \<and> r = r'"
      using eq by (cases ls rule: members_cases) (auto simp: quote_def)
  qed
next
  case (11 k v)
  show ?case
  proof (intro allI impI)
    fix ls r r'
    assume eq: "stringify_members [(k, v)] @ CHR ''}'' # r = stringify_members ls @ CHR ''}'' # r'"
    show "[(k, v)] = ls \<and> r = r'"
    proof (cases ls rule: members_cases)
      case 1
      with eq show ?thesis by (simp add: quote_def)
    next
      case (2 k' v')
      with eq have "quote k @ (CHR '':'' # stringify v @ CHR ''}'' # r)
          = quote k' @ (CHR '':'' # stringify v' @ CHR ''}'' # r')" by simp
      from quote_prefix[OF this] have kk: "k = k'"
        and "stringify v @ CHR ''}'' # r = stringify v' @ CHR ''}'' # r'" by simp_all
      with 11 have "v = v' \<and> CHR ''}'' # r = CHR ''}'' # r'"
        by (metis no_digit_ahead_simps(3))
      with kk 2 show ?thesis by simp
    next
      case (3 k' v' m ms)
      with eq have "quote k @ (CHR '':'' # stringify v @ CHR ''}'' # r)
          = quote k' @ (CHR '':'' # stringify v' @ CHR '','' # stringify_members (m # ms) @ CHR ''}'' # r')"
        by simp
      from quote_prefix[OF this] have
        "stringify v @ CHR ''}'' # r
           = stringify v' @ CHR '','' # (stringify_members (m # ms) @ CHR ''}'' # r')" by simp
      with 11 have "v = v' \<and> CHR ''}'' # r = CHR '','' # (stringify_members (m # ms) @ CHR ''}'' # r')"
        by (metis no_digit_ahead_simps(1,3))
      then show ?thesis by simp
    qed
  qed
next
  case (12 k v m ms)
  show ?case
  proof (intro allI impI)
    fix ls r r'
    assume eq: "stringify_members ((k, v) # m # ms) @ CHR ''}'' # r
                = stringify_members ls @ CHR ''}'' # r'"
    show "(k, v) # m # ms = ls \<and> r = r'"
    proof (cases ls rule: members_cases)
      case 1
      with eq show ?thesis by (simp add: quote_def)
    next
      case (2 k' v')
      with eq have "quote k @ (CHR '':'' # stringify v @ CHR '','' # stringify_members (m # ms) @ CHR ''}'' # r)
          = quote k' @ (CHR '':'' # stringify v' @ CHR ''}'' # r')" by simp
      from quote_prefix[OF this] have
        "stringify v @ CHR '','' # (stringify_members (m # ms) @ CHR ''}'' # r)
           = stringify v' @ CHR ''}'' # r'" by simp
      with 12(1) have "v = v' \<and> CHR '','' # (stringify_members (m # ms) @ CHR ''}'' # r) = CHR ''}'' # r'"
        by (metis no_digit_ahead_simps(1,3))
      then show ?thesis by simp
    next
      case (3 k' v' m' ms')
      with eq have "quote k @ (CHR '':'' # stringify v @ CHR '','' # stringify_members (m # ms) @ CHR ''}'' # r)
          = quote k' @ (CHR '':'' # stringify v' @ CHR '','' # stringify_members (m' # ms') @ CHR ''}'' # r')"
        by simp
      from quote_prefix[OF this] have kk: "k = k'" and
        e: "stringify v @ CHR '','' # (stringify_members (m # ms) @ CHR ''}'' # r)
           = stringify v' @ CHR '','' # (stringify_members (m' # ms') @ CHR ''}'' # r')" by simp_all
      with 12(1) have vv: "v = v'"
        and rest: "CHR '','' # (stringify_members (m # ms) @ CHR ''}'' # r)
                   = CHR '','' # (stringify_members (m' # ms') @ CHR ''}'' # r')"
        by (metis no_digit_ahead_simps(1))+
      from rest have "stringify_members (m # ms) @ CHR ''}'' # r
                   = stringify_members (m' # ms') @ CHR ''}'' # r'" by simp
      with 12(2) have "m # ms = m' # ms' \<and> r = r'" by blast
      with kk vv 3 show ?thesis by simp
    qed
  qed
qed

lemma stringify_inj: "stringify a = stringify b \<Longrightarrow> a = b"
  using stringify_prefix_all(1)[of a] no_digit_ahead_simps(4)
  by (metis append_Nil2)

lemma cacheKey_inj: "cacheKey t a = cacheKey u b \<Longrightarrow> t = u \<and> a = b"
  unfolding cacheKey_def by (drule stringify_inj) simp

section \<open>Properties of the orchestrator\<close>

lemma truthy_get_prop: "get_prop v k = Some a \<Longrightarrow> truthy v"
  by (cases "(v, k)" rule: get_prop.cases) auto

lemma msg_content_user_msg [simp]: "msg_content (user_msg c i) = c"
  by (simp add: user_msg_def)

lemma stage_inputs_Nil [simp]: "stage_inputs st [] = []"
  by (simp add: stage_inputs_def)

lemma stage_inputs_Cons [simp]:
  "stage_inputs st ((s, msgs) # log) =
     (if s = st then map msg_content msgs else []) @ stage_inputs st log"
  by (simp add: stage_inputs_def)

lemma stage_inputs_append [simp]:
  "stage_inputs st (xs @ ys) = stage_inputs st xs @ stage_inputs st ys"
  by (simp add: stage_inputs_def)

subsection \<open>Routing\<close>

text \<open>
  C10. When the router's first tool result carries an \<^verbatim>\<open>action\<close> that is none of
  \<^verbatim>\<open>"create_content"\<close>, \<^verbatim>\<open>"create_strategy"\<close>, \<^verbatim>\<open>"manage_content"\<close>,
  \<^verbatim>\<open>orchestrateAgents\<close> returns normally; the result holds the route's action and platform
  and nothing else, and the router is the only stage agent that was invoked.
\<close>

theorem unknown_action_runs_no_stage:
  assumes "run_stage (routerAgent ag) [user_msg userInput ''1''] = Inr rtr"
    and "get_prop (first_result rtr) ''action'' = Some a"
    and "a \<noteq> JStr ''create_content''" and "a \<noteq> JStr ''create_strategy''"
    and "a \<noteq> JStr ''manage_content''"
  shows "orchestrateAgents ag userInput =
    (Inr \<lparr>action = Some a, platform = get_prop (first_result rtr) ''platform'',
           references = None, strategy = None, formattedContent = None,
           publishedContent = None\<rparr>,
     [(Router, [user_msg userInput ''1''])])"
proof -
  have t: "truthy (first_result rtr)" using assms(2) by (rule truthy_get_prop)
  show ?thesis
    using assms t by (simp add: orchestrateAgents_def call_stage_def js_or_def)
qed

theorem unknown_action_runs_no_stage_witness:
  "orchestrateAgents
     (example_agents (stage_returning (Some (JObj [(''action'', JStr ''archive''),
                                                    (''platform'', JStr ''blog'')]))) stage_silent)
     ''tidy up'' =
   (Inr \<lparr>action = Some (JStr ''archive''), platform = Some (JStr ''blog''),
          references = None, strategy = None, formattedContent = None,
          publishedContent = None\<rparr>,
    [(Router, [user_msg ''tidy up'' ''1''])])"
  using unknown_action_runs_no_stage
    [of "example_agents (stage_returning (Some (JObj [(''action'', JStr ''archive''),
                                                    (''platform'', JStr ''blog'')]))) stage_silent"
        "''tidy up''"
        "Some [\<lparr>tr_toolName = ''tool'', tr_result = Some (JObj [(''action'', JStr ''archive''),
                                                    (''platform'', JStr ''blog'')]),
                 tr_toolCallId = ''call-1'', tr_isError = None\<rparr>]"
        "JStr ''archive''"]
  by (simp add: example_agents_def stage_returning_def run_stage_def)

lemma create_content_flow_ok:
  assumes "\<forall>st msgs. st \<noteq> Router \<longrightarrow> (\<exists>r. run_stage (agent_of ag st) msgs = Inr r)"
  shows "\<exists>r. fst (create_content_flow ag u route res log0) = Inr r \<and> action r = action res
     \<and> platform r = platform res"
proof -
  have ex: "\<And>st msgs. st \<noteq> Router \<Longrightarrow> \<exists>r. run_stage (agent_of ag st) msgs = Inr r"
    using assms by blast
  obtain r1 where r1: "run_stage (agent_of ag Research)
      [user_msg (''Research this topic: '' @ u) ''2''] = Inr r1"
    using ex[of Research] by blast
  obtain r2 where r2: "run_stage (agent_of ag Strategy)
      [user_msg (''Create a strategy for '' @ template (get_prop route ''platform'')
                   @ '' about: '' @ u) ''3''] = Inr r2"
    using ex[of Strategy] by blast
  obtain r3 where r3: "run_stage (agent_of ag Formatter)
      [user_msg (stringify_object
         [(''content'', Some (JStr u)),
          (''platform'', get_prop route ''platform''),
          (''tone'', js_or (get_prop (first_result r2) ''tone'')
                           (Some (JStr ''professional'')))]) ''4''] = Inr r3"
    using ex[of Formatter] by blast
  obtain r4 where r4: "run_stage (agent_of ag Publisher)
      [user_msg (stringify_object
         [(''content'', get_prop (first_result r3) ''formattedContent''),
          (''metadata'', get_prop (first_result r3) ''metadata''),
          (''platform'', get_prop route ''platform'')]) ''5''] = Inr r4"
    using ex[of Publisher] by blast
  show ?thesis
    using r1 r2 r3 r4 by (simp add: create_content_flow_def call_stage_def Let_def)
qed

text \<open>
  C5, as the code has it. When the router yields no usable tool output (no tool results, an
  empty list, or a first result that is \<^verbatim>\<open>undefined\<close>, \<^verbatim>\<open>null\<close> or otherwise falsy),
  \<^verbatim>\<open>orchestrateAgents\<close> proceeds with the route
  \<^verbatim>\<open>{action: "create_content", platform: "blog"}\<close>: it runs the content-creation flow on
  that route, and it completes without throwing whenever the stages of that flow do.
\<close>

theorem absent_route_defaults:
  assumes "run_stage (routerAgent ag) [user_msg userInput ''1''] = Inr rtr"
    and "\<not> truthy (first_result rtr)"
  shows "orchestrateAgents ag userInput =
           create_content_flow ag userInput (Some default_route)
             \<lparr>action = Some (JStr ''create_content''), platform = Some (JStr ''blog''),
              references = None, strategy = None, formattedContent = None,
              publishedContent = None\<rparr>
             [(Router, [user_msg userInput ''1''])]
         \<and> ((\<forall>st msgs. st \<noteq> Router \<longrightarrow> (\<exists>r. run_stage (agent_of ag st) msgs = Inr r)) \<longrightarrow>
            (\<exists>r. fst (orchestrateAgents ag userInput) = Inr r
                \<and> action r = Some (JStr ''create_content'')
                \<and> platform r = Some (JStr ''blog'')))"
proof -
  have eq: "orchestrateAgents ag userInput =
           create_content_flow ag userInput (Some default_route)
             \<lparr>action = Some (JStr ''create_content''), platform = Some (JStr ''blog''),
              references = None, strategy = None, formattedContent = None,
              publishedContent = None\<rparr>
             [(Router, [user_msg userInput ''1''])]"
    using assms by (simp add: orchestrateAgents_def call_stage_def js_or_def default_route_def)
  have ok: "\<exists>r. fst (orchestrateAgents ag userInput) = Inr r
                \<and> action r = Some (JStr ''create_content'')
                \<and> platform r = Some (JStr ''blog'')"
    if h: "\<forall>st msgs. st \<noteq> Router \<longrightarrow> (\<exists>r. run_stage (agent_of ag st) msgs = Inr r)"
    using create_content_flow_ok[OF h, of userInput "Some default_route"
        "\<lparr>action = Some (JStr ''create_content''), platform = Some (JStr ''blog''),
              references = None, strategy = None, formattedContent = None,
              publishedContent = None\<rparr>" "[(Router, [user_msg userInput ''1''])]"]
    by (simp add: eq)
  show ?thesis using eq ok by blast
qed

theorem absent_route_defaults_witness:
  "run_stage (routerAgent (example_agents stage_silent (stage_returning None)))
     [user_msg ''hello'' ''1''] = Inr (Some [])
   \<and> \<not> truthy (first_result (Some []))
   \<and> fst (orchestrateAgents (example_agents stage_silent (stage_returning None)) ''hello'') =
       Inr \<lparr>action = Some (JStr ''create_content''), platform = Some (JStr ''blog''),
            references = None, strategy = None, formattedContent = None,
            publishedContent = None\<rparr>"
  using absent_route_defaults
    [of "example_agents stage_silent (stage_returning None)" "''hello''" "Some []"]
  by (simp add: example_agents_def stage_silent_def stage_returning_def run_stage_def
      create_content_flow_def call_stage_def)

text \<open>
  A router result that is an object without an \<^verbatim>\<open>action\<close> is kept as the route: the
  default is not substituted, and no stage runs.
\<close>

theorem missing_action_is_not_defaulted:
  "orchestrateAgents
     (example_agents (stage_returning (Some (JObj [(''platform'', JStr ''linkedin'')]))) stage_silent)
     ''write a post'' =
   (Inr \<lparr>action = None, platform = Some (JStr ''linkedin''),
          references = None, strategy = None, formattedContent = None,
          publishedContent = None\<rparr>,
    [(Router, [user_msg ''write a post'' ''1''])])"
  by (simp add: orchestrateAgents_def call_stage_def js_or_def example_agents_def
      stage_returning_def run_stage_def)

subsection \<open>The tone handed to the formatter\<close>

lemma create_content_flow_formatter_input:
  assumes research: "run_stage (researchAgent ag)
                     [user_msg (''Research this topic: '' @ userInput) ''2''] = Inr rs"
    and strat: "run_stage (strategyAgent ag)
                  [user_msg (''Create a strategy for '' @ template (get_prop route ''platform'')
                               @ '' about: '' @ userInput) ''3''] = Inr ss"
  shows "stage_inputs Formatter (snd (create_content_flow ag userInput route res log0)) =
           stage_inputs Formatter log0 @
           [stringify_object
              [(''content'', Some (JStr userInput)),
               (''platform'', get_prop route ''platform''),
               (''tone'', js_or (get_prop (first_result ss) ''tone'')
                                (Some (JStr ''professional'')))]]"
  using research strat unfolding create_content_flow_def call_stage_def
  by (simp add: Let_def split: sum.splits)

text \<open>
  C6, as the code has it. In the content-creation flow, once the research and strategy stages
  have returned, the formatter is called exactly once, with the JSON text of
  \<^verbatim>\<open>{content, platform, tone}\<close>, where \<^verbatim>\<open>tone\<close> is the strategy result's \<^verbatim>\<open>tone\<close>
  whenever that value is truthy, and the string \<^verbatim>\<open>"professional"\<close> whenever the strategy
  result has no \<^verbatim>\<open>tone\<close> or a falsy one.
\<close>

theorem formatter_receives_tone:
  assumes router: "run_stage (routerAgent ag) [user_msg userInput ''1''] = Inr rtr"
    and route: "route = js_or (first_result rtr) (Some default_route)"
    and act: "get_prop route ''action'' = Some (JStr ''create_content'')"
    and research: "run_stage (researchAgent ag)
                     [user_msg (''Research this topic: '' @ userInput) ''2''] = Inr rs"
    and strat: "run_stage (strategyAgent ag)
                  [user_msg (''Create a strategy for '' @ template (get_prop route ''platform'')
                               @ '' about: '' @ userInput) ''3''] = Inr ss"
    and tone: "tone = get_prop (first_result ss) ''tone''"
  shows "stage_inputs Formatter (snd (orchestrateAgents ag userInput)) =
           [stringify_object
              [(''content'', Some (JStr userInput)),
               (''platform'', get_prop route ''platform''),
               (''tone'', if truthy tone then tone else Some (JStr ''professional''))]]"
proof -
  have "orchestrateAgents ag userInput =
          create_content_flow ag userInput route
            \<lparr>action = get_prop route ''action'', platform = get_prop route ''platform'',
             references = None, strategy = None, formattedContent = None,
             publishedContent = None\<rparr>
            [(Router, [user_msg userInput ''1''])]"
    using router act unfolding route orchestrateAgents_def call_stage_def
    by (simp add: Let_def)
  then show ?thesis
    using create_content_flow_formatter_input[OF research strat]
    by (simp add: tone js_or_def)
qed

theorem formatter_receives_tone_witness:
  "stage_inputs Formatter
     (snd (orchestrateAgents
        (example_agents
           (stage_returning (Some (JObj [(''action'', JStr ''create_content''),
                                          (''platform'', JStr ''linkedin'')])))
           (stage_returning (Some (JObj [(''tone'', JStr ''casual'')]))))
        ''AI trends'')) =
   [stringify_object [(''content'', Some (JStr ''AI trends'')),
                      (''platform'', Some (JStr ''linkedin'')),
                      (''tone'', Some (JStr ''casual''))]]"
  using formatter_receives_tone
    [of "example_agents
           (stage_returning (Some (JObj [(''action'', JStr ''create_content''),
                                          (''platform'', JStr ''linkedin'')])))
           (stage_returning (Some (JObj [(''tone'', JStr ''casual'')])))"
        "''AI trends''"
        "Some [\<lparr>tr_toolName = ''tool'',
                 tr_result = Some (JObj [(''action'', JStr ''create_content''),
                                          (''platform'', JStr ''linkedin'')]),
                 tr_toolCallId = ''call-1'', tr_isError = None\<rparr>]"
        "Some (JObj [(''action'', JStr ''create_content''), (''platform'', JStr ''linkedin'')])"
        "Some [\<lparr>tr_toolName = ''tool'', tr_result = None,
                 tr_toolCallId = ''call-1'', tr_isError = None\<rparr>]"
        "Some [\<lparr>tr_toolName = ''tool'', tr_result = Some (JObj [(''tone'', JStr ''casual'')]),
                 tr_toolCallId = ''call-1'', tr_isError = None\<rparr>]"
        "Some (JStr ''casual'')"]
  by (simp add: example_agents_def stage_returning_def run_stage_def js_or_def)

text \<open>
  A strategy result whose \<^verbatim>\<open>tone\<close> field is the empty string: the formatter is told
  \<^verbatim>\<open>"professional"\<close>, which is not the JSON text carrying the empty tone.
\<close>

theorem empty_tone_replaced:
  "stage_inputs Formatter
     (snd (orchestrateAgents
        (example_agents
           (stage_returning (Some (JObj [(''action'', JStr ''create_content''),
                                          (''platform'', JStr ''blog'')])))
           (stage_returning (Some (JObj [(''tone'', JStr [])]))))
        ''AI trends'')) =
   [stringify_object [(''content'', Some (JStr ''AI trends'')),
                      (''platform'', Some (JStr ''blog'')),
                      (''tone'', Some (JStr ''professional''))]]
   \<and> stringify_object [(''content'', Some (JStr ''AI trends'')),
                      (''platform'', Some (JStr ''blog'')),
                      (''tone'', Some (JStr ''professional''))]
     \<noteq> stringify_object [(''content'', Some (JStr ''AI trends'')),
                      (''platform'', Some (JStr ''blog'')),
                      (''tone'', Some (JStr []))]"
  by code_simp

section \<open>Properties of the wrapped tools\<close>

lemmas wrap_defs = wrapToolWithTracing_def safeTraceOperation_def traced_execution_def
  traced_catch_def backend_call_def tool_execute_def Let_def


lemma wrap_never_rejects: "\<exists>v. fst (wrapToolWithTracing n t tr a w) = Inr v"
  by (auto simp: wrap_defs split: option.splits sum.splits prod.splits)



text \<open>
  When the backend throws on the start span of a call that misses the cache, the tool is
  not run and the wrapped \<^verbatim>\<open>execute\<close> fulfils with \<^verbatim>\<open>undefined\<close>.
\<close>

lemma start_span_failure_skips_tool:
  assumes "toolResultCache w (cacheKey n a) = None"
    and "tc_throws tr (Span (''tool-execution-'' @ n)) = Some e"
  shows "fst (wrapToolWithTracing n t (Some tr) a w) = Inr None"
    and "executed (snd (wrapToolWithTracing n t (Some tr) a w)) = executed w"
  using assms by (auto simp: wrap_defs split: option.splits sum.splits prod.splits)



text \<open>
  C2. A tool whose \<^verbatim>\<open>execute\<close> rejects: the wrapped \<^verbatim>\<open>execute\<close> does not reject, it
  fulfils with \<^verbatim>\<open>undefined\<close>, because the tool runs inside the closure guarded by
  \<^verbatim>\<open>safeTraceOperation\<close>, which catches what the inner \<^verbatim>\<open>catch\<close> rethrows. Nothing is
  cached for the call.
\<close>

theorem wrapped_execute_swallows_tool_error:
  "unreliable_tool (executed empty_world) fail_args = Inl (Error ''Tool failed as requested'')
   \<and> fst (wrapToolWithTracing ''unreliable'' unreliable_tool (Some healthy_trace) fail_args
            empty_world) = Inr None
   \<and> toolResultCache (snd (wrapToolWithTracing ''unreliable'' unreliable_tool (Some healthy_trace)
            fail_args empty_world)) (cacheKey ''unreliable'' fail_args) = None"
  by (simp add: wrap_defs empty_world_def healthy_trace_def unreliable_tool_def)





subsection \<open>The cache key\<close>

text \<open>
  C7, as the code has it. The cache key is \<^verbatim>\<open>JSON.stringify({ toolName, args })\<close>,
  which writes the properties of \<^verbatim>\<open>args\<close> in their enumeration order: two calls have
  the same key exactly when they have the same tool name and the same argument object,
  property by property in the same order. A cache entry written for one call is read by
  another call exactly in that case, so argument objects that differ in a value have
  distinct keys and independent entries.
\<close>

theorem cacheKey_distinguishes_calls:
  "(cacheKey t a = cacheKey u b \<longleftrightarrow> t = u \<and> a = b)
   \<and> ((toolResultCache w)(cacheKey t a \<mapsto> v)) (cacheKey u b)
       = (if t = u \<and> a = b then Some v else toolResultCache w (cacheKey u b))"
  using cacheKey_inj[of t a u b] by auto

theorem cacheKey_distinguishes_calls_witness:
  "cacheKey ''getWeather'' tokyo \<noteq> cacheKey ''getWeather'' paris
   \<and> ((toolResultCache empty_world)(cacheKey ''getWeather'' tokyo \<mapsto> Some (JNum 21)))
        (cacheKey ''getWeather'' paris) = None"
  using cacheKey_distinguishes_calls[of "''getWeather''" tokyo "''getWeather''" paris empty_world "Some (JNum 21)"]
  by (simp add: tokyo_def paris_def empty_world_def)

text \<open>
  The same two properties in the other order: equal as key-value maps, different keys.
\<close>

theorem key_order_changes_cacheKey:
  "map_of [(''a'', JNum 1), (''b'', JNum 2)] = map_of [(''b'', JNum 2), (''a'', JNum 1)]
   \<and> cacheKey ''t'' [(''a'', JNum 1), (''b'', JNum 2)] \<noteq> cacheKey ''t'' [(''b'', JNum 2), (''a'', JNum 1)]"
proof -
  have "map_of [(''a'', JNum 1), (''b'', JNum 2)] = map_of [(''b'', JNum 2), (''a'', JNum 1)]"
    by (auto simp: fun_eq_iff)
  moreover have "cacheKey ''t'' [(''a'', JNum 1), (''b'', JNum 2)]
      \<noteq> cacheKey ''t'' [(''b'', JNum 2), (''a'', JNum 1)]"
    by code_simp
  ultimately show ?thesis by blast
qed

section \<open>Properties of the agent function\<close>

lemma generateText_last_step:
  "generateText model tools (Suc n) outs w = (Inr result, w') \<Longrightarrow>
   \<exists>outs'. model outs' = Emit (gen_text result) (gen_toolCalls result)"
proof (induction n arbitrary: outs w)
  case 0
  then show ?case
    by (auto split: model_step.splits prod.splits)
next
  case (Suc n)
  show ?case
  proof (cases "model outs")
    case (GenerationError err)
    with Suc.prems show ?thesis by simp
  next
    case (Emit t calls)
    obtain outs1 w1 where r: "run_tool_calls tools calls w = (outs1, w1)"
      by (cases "run_tool_calls tools calls w")
    show ?thesis
    proof (cases "calls = []")
      case True
      with Suc.prems Emit r show ?thesis by auto
    next
      case False
      with Suc.prems Emit r
      have "generateText model tools (Suc n) (outs @ outs1) w1 = (Inr result, w')" by simp
      then show ?thesis by (rule Suc.IH)
    qed
  qed
qed

lemma step_budget_pos: "\<exists>n. step_budget opts = Suc n"
  by (cases "step_budget opts") (auto simp: step_budget_def split: option.splits if_splits)

lemma agent_generation_last_step:
  assumes "fst (snd (agent_generation cfg opts userPrompt w)) = Inr result"
  shows "\<exists>outs. opt_model opts (opt_systemPrompt opts) [(''user'', userPrompt)] outs
                 = Emit (gen_text result) (gen_toolCalls result)"
proof -
  obtain n where n: "step_budget opts = Suc n" using step_budget_pos by blast
  obtain trace w1 where st: "start_trace cfg (w\<lparr>toolResultCache := Map.empty\<rparr>) = (trace, w1)"
    by (cases "start_trace cfg (w\<lparr>toolResultCache := Map.empty\<rparr>)")
  from assms obtain tools w2 w' where
    "generateText (opt_model opts (opt_systemPrompt opts) [(''user'', userPrompt)]) tools (Suc n) [] w2
       = (Inr result, w')"
    unfolding agent_generation_def st n
    by (cases "generateText (opt_model opts (opt_systemPrompt opts) [(''user'', userPrompt)])
                 (wrap_tools (opt_tools opts) trace) (Suc n) []
                 (case trace of None \<Rightarrow> w1
                  | Some tr \<Rightarrow> safe_backend_calls (tc_throws tr)
                       [Span (cfg_name cfg @ ''-agent-start'')]
                       ''Failed to create agent start span'' w1)")
       (auto simp: Let_def)
  then show ?thesis by (rule generateText_last_step)
qed

lemma createAgent_response:
  "fst (createAgent cfg opts userPrompt w) = Inr resp \<longleftrightarrow>
   (\<exists>result. fst (snd (agent_generation cfg opts userPrompt w)) = Inr result
       \<and> resp = format_response (opt_requireStructuredOutput opts) result)"
  by (cases "agent_generation cfg opts userPrompt w")
     (auto simp: createAgent_def Let_def split: sum.splits)

lemma createAgent_core_response:
  "fst (createAgent_core cfg opts userPrompt w) = Inr resp \<Longrightarrow>
   (\<exists>result w'. snd (agent_generation_core cfg opts userPrompt w) = (Inr result, w')
       \<and> resp = format_response_core (opt_requireStructuredOutput opts) result w')"
  by (cases "agent_generation_core cfg opts userPrompt w")
     (auto simp: createAgent_core_def Let_def split: sum.splits option.splits prod.splits)

lemma agent_generation_core_last_step:
  assumes "fst (snd (agent_generation_core cfg opts userPrompt w)) = Inr result"
  shows "\<exists>outs. opt_model opts (opt_systemPrompt opts)
                   ((case opt_messages opts of None \<Rightarrow> [] | Some ms \<Rightarrow> ms) @ [(''user'', userPrompt)])
                   outs
                 = Emit (gen_text result) (gen_toolCalls result)"
proof -
  obtain n where n: "step_budget opts = Suc n" using step_budget_pos by blast
  obtain trace w1 where st: "start_trace cfg (w\<lparr>toolResultCache := Map.empty\<rparr>) = (trace, w1)"
    by (cases "start_trace cfg (w\<lparr>toolResultCache := Map.empty\<rparr>)")
  from assms obtain tools w2 w' where
    "generateText (opt_model opts (opt_systemPrompt opts)
        ((case opt_messages opts of None \<Rightarrow> [] | Some ms \<Rightarrow> ms) @ [(''user'', userPrompt)]))
        tools (Suc n) [] w2 = (Inr result, w')"
    unfolding agent_generation_core_def st n
    by (cases "generateText (opt_model opts (opt_systemPrompt opts)
                  ((case opt_messages opts of None \<Rightarrow> [] | Some ms \<Rightarrow> ms) @ [(''user'', userPrompt)]))
                 (wrap_tools (opt_tools opts) trace) (Suc n) []
                 (case trace of None \<Rightarrow> w1
                  | Some tr \<Rightarrow> safe_backend_calls (tc_throws tr)
                       [Generation ''initial-prompt'', Span (cfg_name cfg @ ''-agent-execution'')]
                       ''Failed to create agent spans'' w1)")
       (auto simp: Let_def)
  then show ?thesis by (rule generateText_last_step)
qed

lemma map_of_assign_property: "map_of (assign_property ps k v) = (map_of ps)(k \<mapsto> v)"
  by (induction ps k v rule: assign_property.induct) auto

lemma find_snoc:
  "find P (xs @ [x]) = (case find P xs of Some y \<Rightarrow> Some y | None \<Rightarrow> if P x then Some x else None)"
  by (induction xs) auto

lemma foldl_assign_lookup:
  "map_of (foldl (\<lambda>acc call. assign_property acc (call_toolName call) (JObj (call_args call)))
             acc calls) n =
   (case find (\<lambda>c. call_toolName c = n) (rev calls) of
      Some c \<Rightarrow> Some (JObj (call_args c))
    | None \<Rightarrow> map_of acc n)"
proof (induction calls arbitrary: acc)
  case Nil
  then show ?case by simp
next
  case (Cons c cs)
  show ?case
    by (simp add: Cons.IH find_snoc map_of_assign_property split: option.splits)
qed

lemma tool_results_record_lookup:
  "map_of (tool_results_record calls) n =
   map_option (\<lambda>c. JObj (call_args c)) (find (\<lambda>c. call_toolName c = n) (rev calls))"
  by (simp add: tool_results_record_def foldl_assign_lookup split: option.splits)

subsection \<open>The response\<close>

text \<open>
  C9. In unstructured mode the response of the agent of part_006 is built from the tool
  calls of the generation result alone: every \<^verbatim>\<open>tool_call\<close> content entry carries the
  call's arguments as its \<^verbatim>\<open>toolResults\<close>, and the top-level \<^verbatim>\<open>toolResults\<close> record
  maps a tool name to the arguments of the last call of that tool. What the tools'
  \<^verbatim>\<open>execute\<close> functions returned does not enter.
\<close>

theorem unstructured_tool_results_are_arguments:
  assumes "\<not> opt_requireStructuredOutput opts"
    and "fst (createAgent cfg opts userPrompt w) = Inr resp"
  shows "\<exists>result record.
           fst (snd (agent_generation cfg opts userPrompt w)) = Inr result
         \<and> resp = Unstructured
                    (TextContent (gen_text result)
                     # map (\<lambda>c. ToolCallContent (call_toolName c) (call_args c)
                                    (Some (JObj (call_args c)))) (gen_toolCalls result))
                    (Some record)
         \<and> (\<forall>n. map_of record n =
                  map_option (\<lambda>c. JObj (call_args c))
                    (find (\<lambda>c. call_toolName c = n) (rev (gen_toolCalls result))))"
proof -
  from assms(2) obtain result where
    g: "fst (snd (agent_generation cfg opts userPrompt w)) = Inr result"
    and r: "resp = format_response (opt_requireStructuredOutput opts) result"
    unfolding createAgent_response by blast
  have "resp = Unstructured
                    (TextContent (gen_text result)
                     # map (\<lambda>c. ToolCallContent (call_toolName c) (call_args c)
                                    (Some (JObj (call_args c)))) (gen_toolCalls result))
                    (Some (tool_results_record (gen_toolCalls result)))"
    using assms(1) r by (simp add: format_response_def tool_call_contents_def)
  with g tool_results_record_lookup show ?thesis by blast
qed

lemma example_unstructured_mode: "\<not> opt_requireStructuredOutput (example_options ends_on_tool_call [(''X'', weather_tool)] False)"
  by (simp add: example_options_def)

lemma example_unstructured_run:
  "fst (createAgent (example_config (Some healthy_trace) None)
          (example_options ends_on_tool_call [(''X'', weather_tool)] False)
          ''Analyze the weather'' empty_world)
   = Inr (Unstructured [TextContent [], ToolCallContent ''X'' analysis_args (Some (JObj analysis_args))]
            (Some [(''X'', JObj analysis_args)]))"
  by code_simp

theorem unstructured_tool_results_are_arguments_witness:
  "\<exists>result record.
     fst (snd (agent_generation (example_config (Some healthy_trace) None)
          (example_options ends_on_tool_call [(''X'', weather_tool)] False)
          ''Analyze the weather'' empty_world)) = Inr result
     \<and> Unstructured [TextContent [], ToolCallContent ''X'' analysis_args (Some (JObj analysis_args))]
            (Some [(''X'', JObj analysis_args)])
        = Unstructured
                    (TextContent (gen_text result)
                     # map (\<lambda>c. ToolCallContent (call_toolName c) (call_args c)
                                    (Some (JObj (call_args c)))) (gen_toolCalls result))
                    (Some record)
     \<and> (\<forall>n. map_of record n =
                  map_option (\<lambda>c. JObj (call_args c))
                    (find (\<lambda>c. call_toolName c = n) (rev (gen_toolCalls result))))"
  using unstructured_tool_results_are_arguments[OF example_unstructured_mode example_unstructured_run] .

text \<open>
  C4, as the code has it. With \<^verbatim>\<open>requireStructuredOutput\<close> set, a response that either
  agent function returns is \<^verbatim>\<open>{toolCalls, structuredOutput}\<close>, where \<^verbatim>\<open>toolCalls\<close> are
  the tool calls and \<^verbatim>\<open>structuredOutput\<close> is the text of the model's last step.
\<close>

theorem structured_output_is_final_text:
  assumes "opt_requireStructuredOutput opts"
  shows "(\<forall>resp. fst (createAgent cfg opts userPrompt w) = Inr resp \<longrightarrow>
            (\<exists>result outs.
                fst (snd (agent_generation cfg opts userPrompt w)) = Inr result
              \<and> opt_model opts (opt_systemPrompt opts) [(''user'', userPrompt)] outs
                  = Emit (gen_text result) (gen_toolCalls result)
              \<and> resp = Structured (gen_toolCalls result) (Some (JStr (gen_text result)))))
       \<and> (\<forall>resp. fst (createAgent_core cfg opts userPrompt w) = Inr resp \<longrightarrow>
            (\<exists>result outs.
                fst (snd (agent_generation_core cfg opts userPrompt w)) = Inr result
              \<and> opt_model opts (opt_systemPrompt opts)
                   ((case opt_messages opts of None \<Rightarrow> [] | Some ms \<Rightarrow> ms) @ [(''user'', userPrompt)])
                   outs
                  = Emit (gen_text result) (gen_toolCalls result)
              \<and> resp = Structured (gen_toolCalls result) (Some (JStr (gen_text result)))))"
proof (intro conjI allI impI)
  fix resp
  assume "fst (createAgent cfg opts userPrompt w) = Inr resp"
  then obtain result where
    g: "fst (snd (agent_generation cfg opts userPrompt w)) = Inr result"
    and r: "resp = format_response (opt_requireStructuredOutput opts) result"
    unfolding createAgent_response by blast
  from agent_generation_last_step[OF g] obtain outs where
    "opt_model opts (opt_systemPrompt opts) [(''user'', userPrompt)] outs
       = Emit (gen_text result) (gen_toolCalls result)" by blast
  moreover have "resp = Structured (gen_toolCalls result) (Some (JStr (gen_text result)))"
    using assms r by (simp add: format_response_def)
  ultimately show "\<exists>result outs.
                fst (snd (agent_generation cfg opts userPrompt w)) = Inr result
              \<and> opt_model opts (opt_systemPrompt opts) [(''user'', userPrompt)] outs
                  = Emit (gen_text result) (gen_toolCalls result)
              \<and> resp = Structured (gen_toolCalls result) (Some (JStr (gen_text result)))"
    using g by blast
next
  fix resp
  assume "fst (createAgent_core cfg opts userPrompt w) = Inr resp"
  from createAgent_core_response[OF this] obtain result w' where
    g: "snd (agent_generation_core cfg opts userPrompt w) = (Inr result, w')"
    and r: "resp = format_response_core (opt_requireStructuredOutput opts) result w'"
    by blast
  have g': "fst (snd (agent_generation_core cfg opts userPrompt w)) = Inr result"
    using g by simp
  from agent_generation_core_last_step[OF g'] obtain outs where
    "opt_model opts (opt_systemPrompt opts)
        ((case opt_messages opts of None \<Rightarrow> [] | Some ms \<Rightarrow> ms) @ [(''user'', userPrompt)]) outs
       = Emit (gen_text result) (gen_toolCalls result)" by blast
  moreover have "resp = Structured (gen_toolCalls result) (Some (JStr (gen_text result)))"
    using assms r by (simp add: format_response_core_def)
  ultimately show "\<exists>result outs.
                fst (snd (agent_generation_core cfg opts userPrompt w)) = Inr result
              \<and> opt_model opts (opt_systemPrompt opts)
                   ((case opt_messages opts of None \<Rightarrow> [] | Some ms \<Rightarrow> ms) @ [(''user'', userPrompt)])
                   outs
                  = Emit (gen_text result) (gen_toolCalls result)
              \<and> resp = Structured (gen_toolCalls result) (Some (JStr (gen_text result)))"
    using g' by blast
qed

lemma example_structured_mode: "opt_requireStructuredOutput (example_options ends_on_tool_call [(''X'', weather_tool)] True)"
  by (simp add: example_options_def)

lemma example_structured_run:
  "fst (createAgent (example_config (Some healthy_trace) None)
          (example_options ends_on_tool_call [(''X'', weather_tool)] True)
          ''Analyze the weather'' empty_world)
   = Inr (Structured [\<lparr>call_toolName = ''X'', call_args = analysis_args, call_hasOutput = False\<rparr>]
            (Some (JStr [])))"
  by code_simp

theorem structured_output_is_final_text_witness:
  "\<exists>result outs.
      fst (snd (agent_generation (example_config (Some healthy_trace) None)
          (example_options ends_on_tool_call [(''X'', weather_tool)] True)
          ''Analyze the weather'' empty_world)) = Inr result
    \<and> opt_model (example_options ends_on_tool_call [(''X'', weather_tool)] True)
         (opt_systemPrompt (example_options ends_on_tool_call [(''X'', weather_tool)] True))
         [(''user'', ''Analyze the weather'')] outs
        = Emit (gen_text result) (gen_toolCalls result)
    \<and> Structured [\<lparr>call_toolName = ''X'', call_args = analysis_args, call_hasOutput = False\<rparr>]
            (Some (JStr []))
       = Structured (gen_toolCalls result) (Some (JStr (gen_text result)))"
  using structured_output_is_final_text[OF example_structured_mode] example_structured_run by blast

text \<open>
  A run whose last step is the tool call \<^verbatim>\<open>X\<close> with arguments
  \<^verbatim>\<open>{a: 1, b: "x"}\<close> and no text: \<^verbatim>\<open>structuredOutput\<close> is the empty string, not the
  arguments.
\<close>

theorem structured_output_is_not_the_arguments:
  "fst (createAgent (example_config None None)
          (example_options ends_on_tool_call [(''X'', weather_tool)] True)
          ''Analyze the weather'' empty_world)
     = Inr (Structured
              [\<lparr>call_toolName = ''X'', call_args = analysis_args, call_hasOutput = False\<rparr>]
              (Some (JStr [])))
   \<and> Some (JStr []) \<noteq> Some (JObj analysis_args)"
  by code_simp

subsection \<open>Runs with a failing trace backend\<close>

text \<open>
  C1. The configuration brings a trace client that throws on every method. In part_006 the
  run completes, but the start span of the wrapped tool throws inside the guarded closure
  before the tool is reached: the tool is never executed and the model is fed
  \<^verbatim>\<open>undefined\<close>, so the response differs from the run without a sink. In part_007 the
  unguarded backend calls after the generation throw into the caller.
\<close>

theorem throwing_backend_changes_the_run:
  "fst (createAgent (example_config None None)
          (example_options asks_once [(''getWeather'', weather_tool)] False)
          ''Weather in Tokyo?'' empty_world)
     = Inr (Unstructured [TextContent ''It is 21 degrees in Tokyo.''] (Some []))
   \<and> executed (snd (createAgent (example_config None None)
          (example_options asks_once [(''getWeather'', weather_tool)] False)
          ''Weather in Tokyo?'' empty_world)) = [(''getWeather'', tokyo)]
   \<and> fst (createAgent (example_config (Some throwing_trace) (Some throwing_langfuse))
          (example_options asks_once [(''getWeather'', weather_tool)] False)
          ''Weather in Tokyo?'' empty_world)
     = Inr (Unstructured [TextContent ''I could not get the weather.''] (Some []))
   \<and> executed (snd (createAgent (example_config (Some throwing_trace) (Some throwing_langfuse))
          (example_options asks_once [(''getWeather'', weather_tool)] False)
          ''Weather in Tokyo?'' empty_world)) = []
   \<and> fst (createAgent_core (example_config (Some throwing_trace) (Some throwing_langfuse))
          (example_options asks_once [(''getWeather'', weather_tool)] False)
          ''Weather in Tokyo?'' empty_world)
     = Inl (Error ''trace backend unavailable'')"
  by code_simp

subsection \<open>Runs with and without a sink\<close>
























end
